theory Spec2Isabelle
  imports
    Main
    "HOL-Library.Word"
    "HOL-Library.Char_ord"
    "HOL-Library.List_Lexorder"
    "HOL-Library.Sublist"
    "HOL-Library.AList"
begin

section \<open>IIS log compressor: the archive, verify, delete and retention core of main.go\<close>

text \<open>
  The theory embeds the batch pass of \<^verbatim>\<open>main.go\<close>: \<^verbatim>\<open>processLogs\<close>,
  \<^verbatim>\<open>compressMonthGroup\<close>, \<^verbatim>\<open>addFilesToZip\<close>, \<^verbatim>\<open>verifyZipContainsAll\<close>,
  \<^verbatim>\<open>deleteWithRetry\<close>, \<^verbatim>\<open>findLogFiles\<close> and \<^verbatim>\<open>cleanupOldCompressedLogs\<close>.
  The file system, the statistics and the mutex are an explicit state (\<open>world\<close>); every
  system call that can fail returns its error as a value. The group goroutines are run one
  after the other. The per-file mode (\<^verbatim>\<open>compressLogFile\<close>, \<^verbatim>\<open>compressZip\<close>,
  \<^verbatim>\<open>compressGzip\<close>, \<^verbatim>\<open>generateDestFileName\<close>, \<^verbatim>\<open>generateMonthlyDestFileName\<close>) is never
  called from \<^verbatim>\<open>main\<close> or \<^verbatim>\<open>processLogs\<close> and is left out, as are the configuration
  loader, the summary, the report and the e-mail.
\<close>

subsection \<open>Strings, paths and errors\<close>

text \<open>
  A path is kept as the list of its elements, so \<^verbatim>\<open>filepath.Join(dir, name)\<close> appends one
  element and \<^verbatim>\<open>filepath.Base\<close> is the last element. Two paths are the same file exactly when
  they are the same list.
\<close>

type_synonym path = "string list"

definition Join :: "path \<Rightarrow> string \<Rightarrow> path" where
  "Join dir name = dir @ [name]"

definition Base :: "path \<Rightarrow> string" where
  "Base p = (if p = [] then ''/'' else last p)"

definition path_string :: "path \<Rightarrow> string" where
  "path_string p = concat (map (\<lambda>c. ''/'' @ c) p)"

text \<open>\<^verbatim>\<open>filepath.Ext\<close>: the suffix of the last element from its last dot on, empty when
  there is no dot.\<close>

definition Ext :: "path \<Rightarrow> string" where
  "Ext p = (let name = (if p = [] then [] else last p) in
     if CHR ''.'' \<in> set name
     then CHR ''.'' # rev (takeWhile (\<lambda>c. c \<noteq> CHR ''.'') (rev name))
     else [])"

text \<open>\<^verbatim>\<open>strings.ToLower\<close> on the ASCII letters (file names and configuration words are
  ASCII here).\<close>

definition lower_char :: "char \<Rightarrow> char" where
  "lower_char c =
     (case map_of (zip ''ABCDEFGHIJKLMNOPQRSTUVWXYZ'' ''abcdefghijklmnopqrstuvwxyz'') c of
        None \<Rightarrow> c | Some d \<Rightarrow> d)"

definition ToLower :: "string \<Rightarrow> string" where
  "ToLower s = map lower_char s"

definition HasSuffix :: "string \<Rightarrow> string \<Rightarrow> bool" where
  "HasSuffix s suf = suffix suf s"

definition Contains :: "string \<Rightarrow> string \<Rightarrow> bool" where
  "Contains s sub = sublist sub s"

text \<open>\<^verbatim>\<open>strings.ReplaceAll\<close> for a non-empty \<open>old\<close> (the program only replaces the
  two-character tokens of the name pattern): non-overlapping matches, left to right.\<close>

function ReplaceAll :: "string \<Rightarrow> string \<Rightarrow> string \<Rightarrow> string" where
  "ReplaceAll [] old new = []"
| "ReplaceAll (c # cs) old new =
     (if old \<noteq> [] \<and> prefix old (c # cs)
      then new @ ReplaceAll (drop (length old) (c # cs)) old new
      else c # ReplaceAll cs old new)"
  by pat_completeness auto
termination
  by (relation "measure (\<lambda>(s, old, new). length s)") auto

text \<open>A Go \<^verbatim>\<open>error\<close>: the \<^verbatim>\<open>*fs.PathError\<close> of a failed system call (operation, path,
  reason), or a message built by \<^verbatim>\<open>fmt.Errorf\<close>.\<close>

datatype error = PathError string path string | Errorf string

fun error_string :: "error \<Rightarrow> string" where
  "error_string (PathError opn p reason) = opn @ '' '' @ path_string p @ '': '' @ reason"
| "error_string (Errorf msg) = msg"

subsection \<open>Time\<close>

text \<open>
  A \<^verbatim>\<open>time.Time\<close> is its instant: nanoseconds since the Unix epoch, read in UTC.
  \<^verbatim>\<open>Before\<close> and \<^verbatim>\<open>After\<close> compare instants; \<^verbatim>\<open>AddDate(0, 0, d)\<close> moves by whole days;
  \<^verbatim>\<open>Format\<close> needs the civil date of the instant.
\<close>

type_synonym Time = int

definition nsPerDay :: int where
  "nsPerDay = 86400 * 1000000000"

definition Before :: "Time \<Rightarrow> Time \<Rightarrow> bool" where
  "Before t u = (t < u)"

definition After :: "Time \<Rightarrow> Time \<Rightarrow> bool" where
  "After t u = (t > u)"

definition AddDate_days :: "Time \<Rightarrow> int \<Rightarrow> Time" where
  "AddDate_days t d = t + d * nsPerDay"

text \<open>The civil date (year, month, day) of a day number counted from 1970-01-01, in the
  proleptic Gregorian calendar.\<close>

definition civil_of_days :: "int \<Rightarrow> int \<times> int \<times> int" where
  "civil_of_days z0 =
     (let z = z0 + 719468;
          era = z div 146097;
          doe = z mod 146097;
          yoe = (doe - doe div 1460 + doe div 36524 - doe div 146096) div 365;
          doy = doe - (365 * yoe + yoe div 4 - yoe div 100);
          mp = (5 * doy + 2) div 153;
          d = doy - (153 * mp + 2) div 5 + 1;
          m = (if mp < 10 then mp + 3 else mp - 9);
          y = yoe + era * 400 + (if m \<le> 2 then 1 else 0)
      in (y, m, d))"

definition Date :: "Time \<Rightarrow> int \<times> int \<times> int" where
  "Date t = civil_of_days (t div nsPerDay)"

definition isLeap :: "int \<Rightarrow> bool" where
  "isLeap y = (y mod 4 = 0 \<and> (y mod 100 \<noteq> 0 \<or> y mod 400 = 0))"

definition YearDay :: "Time \<Rightarrow> int" where
  "YearDay t =
     (case Date t of (y, m, d) \<Rightarrow>
        d + [0, 31, 59, 90, 120, 151, 181, 212, 243, 273, 304, 334] ! nat (m - 1)
          + (if isLeap y \<and> m > 2 then 1 else 0))"

definition digit_char :: "int \<Rightarrow> char" where
  "digit_char n = ''0123456789'' ! nat (n mod 10)"

text \<open>The last \<open>w\<close> decimal digits of \<open>n\<close>, zero padded (years 0 to 9999 print whole).\<close>

fun pad :: "nat \<Rightarrow> int \<Rightarrow> string" where
  "pad 0 n = []"
| "pad (Suc w) n = pad w (n div 10) @ [digit_char n]"

text \<open>The layouts of \<^verbatim>\<open>time.Format\<close> that the program uses.\<close>

definition Format_2006 :: "Time \<Rightarrow> string" where
  "Format_2006 t = (case Date t of (y, m, d) \<Rightarrow> pad 4 y)"

definition Format_06 :: "Time \<Rightarrow> string" where
  "Format_06 t = (case Date t of (y, m, d) \<Rightarrow> pad 2 y)"

definition Format_01 :: "Time \<Rightarrow> string" where
  "Format_01 t = (case Date t of (y, m, d) \<Rightarrow> pad 2 m)"

definition Format_02 :: "Time \<Rightarrow> string" where
  "Format_02 t = (case Date t of (y, m, d) \<Rightarrow> pad 2 d)"

definition Format_002 :: "Time \<Rightarrow> string" where
  "Format_002 t = pad 3 (YearDay t)"

subsection \<open>Configuration, statistics, candidate files\<close>

record Config =
  SourceFolder :: path
  DestFolder :: path
  LogAgeDays :: int
  RetentionDays :: int
  CleanupOldLogs :: bool
  DeleteOriginalAfterCompress :: bool
  CompressCurrentMonth :: bool
  ArchiveScope :: string
  KeepLastNArchives :: int
  DestFileNamePattern :: string
  CompressionType :: string
  MaxCPUs :: int

record CompressionStats =
  FilesProcessed :: int
  FilesCompressed :: int
  TotalSizeBefore :: int
  TotalSizeAfter :: int
  Errors :: "string list"
  StartTime :: Time
  EndTime :: Time
  EmailStatus :: string
  GroupCount :: int

record LogFile =
  Path :: path
  Size :: int
  ModTime :: Time

subsection \<open>The file system and the shared state\<close>

text \<open>
  What \<^verbatim>\<open>os.Stat\<close> reports of an entry, and what the program can observe of its content:
  \<open>zipDir\<close> is the central directory (entry name, \<^verbatim>\<open>UncompressedSize64\<close>) when the file is
  a readable zip container. \<open>locks\<close> counts the \<^verbatim>\<open>os.Remove\<close> attempts that will still fail
  because another process holds the file; each failed attempt uses one up. \<open>IsRegular\<close> is
  what \<^verbatim>\<open>Mode().IsRegular()\<close> reports: false for a directory and for a device, a named pipe
  or a socket. The program never asks for it.
\<close>

record FileInfo =
  IsDir :: bool
  IsRegular :: bool
  FSize :: int
  MTime :: Time
  locks :: nat
  zipDir :: "(string \<times> 64 word) list option"

text \<open>
  The state of a run: the file system (path to entry, the first binding of a path counts),
  the global \<^verbatim>\<open>stats\<close>, and the mutex \<^verbatim>\<open>mu\<close>. \<open>unguarded\<close> counts the writes to
  \<^verbatim>\<open>stats\<close> that were made while \<^verbatim>\<open>mu\<close> was not held.
\<close>

record world =
  fs :: "(path \<times> FileInfo) list"
  stats :: CompressionStats
  mu :: bool
  unguarded :: nat

text \<open>
  The I/O faults of a run that the file system state does not determine: which sources
  cannot be opened, for which sources the zip entry header cannot be written, for which
  the copy breaks (after how many bytes), for which container the zip writer or the file
  handle fails to close or the reopening fails, and the size on disk of a container with
  given entries (it depends on the compressor).
\<close>

record faults =
  openFails :: "path \<Rightarrow> bool"
  entryFails :: "path \<Rightarrow> bool"
  copyFails :: "path \<Rightarrow> int option"
  zipCloseFails :: "path \<Rightarrow> bool"
  fileCloseFails :: "path \<Rightarrow> bool"
  reopenFails :: "path \<Rightarrow> bool"
  containerSize :: "(string \<times> 64 word) list \<Rightarrow> int"

definition mu_Lock :: "world \<Rightarrow> world" where
  "mu_Lock w = w\<lparr>mu := True\<rparr>"

definition mu_Unlock :: "world \<Rightarrow> world" where
  "mu_Unlock w = w\<lparr>mu := False\<rparr>"

definition write_stats :: "(CompressionStats \<Rightarrow> CompressionStats) \<Rightarrow> world \<Rightarrow> world" where
  "write_stats f w =
     w\<lparr>stats := f (stats w), unguarded := unguarded w + (if mu w then 0 else 1)\<rparr>"

definition append_error :: "string \<Rightarrow> CompressionStats \<Rightarrow> CompressionStats" where
  "append_error msg s = s\<lparr>Errors := Errors s @ [msg]\<rparr>"

definition os_Stat :: "world \<Rightarrow> path \<Rightarrow> error + FileInfo" where
  "os_Stat w p =
     (case map_of (fs w) p of
        None \<Rightarrow> Inl (PathError ''stat'' p ''no such file or directory'')
      | Some info \<Rightarrow> Inr info)"

definition has_children :: "world \<Rightarrow> path \<Rightarrow> bool" where
  "has_children w p = (\<exists>q \<in> set (map fst (fs w)). strict_prefix p q)"

text \<open>\<^verbatim>\<open>os.Remove\<close>: fails on a missing path, on a directory that is not empty and on a
  file another process holds.\<close>

definition os_Remove :: "path \<Rightarrow> world \<Rightarrow> world \<times> error option" where
  "os_Remove p w =
     (case map_of (fs w) p of
        None \<Rightarrow> (w, Some (PathError ''remove'' p ''no such file or directory''))
      | Some info \<Rightarrow>
          if IsDir info \<and> has_children w p
          then (w, Some (PathError ''remove'' p ''directory not empty''))
          else if locks info > 0
          then (w\<lparr>fs := AList.update p (info\<lparr>locks := locks info - 1\<rparr>) (fs w)\<rparr>,
                Some (PathError ''remove'' p ''file is being used by another process''))
          else (w\<lparr>fs := AList.delete p (fs w)\<rparr>, None))"

text \<open>\<^verbatim>\<open>os.Create\<close>: creates or truncates the file; fails when the parent is not a
  directory, when the path is a directory, or when another process holds the file.\<close>

definition parent_ok :: "world \<Rightarrow> path \<Rightarrow> bool" where
  "parent_ok w p =
     (p \<noteq> [] \<and> (butlast p = [] \<or>
        (case map_of (fs w) (butlast p) of None \<Rightarrow> False | Some d \<Rightarrow> IsDir d)))"

definition os_Create :: "path \<Rightarrow> Time \<Rightarrow> world \<Rightarrow> error + world" where
  "os_Create p now w =
     (if \<not> parent_ok w p
      then Inl (PathError ''open'' p ''no such file or directory'')
      else case map_of (fs w) p of
        None \<Rightarrow> Inr (w\<lparr>fs := AList.update p
                 \<lparr>IsDir = False, IsRegular = True, FSize = 0, MTime = now, locks = 0, zipDir = None\<rparr> (fs w)\<rparr>)
      | Some old \<Rightarrow>
          if IsDir old then Inl (PathError ''open'' p ''is a directory'')
          else if locks old > 0
          then Inl (PathError ''open'' p ''file is being used by another process'')
          else Inr (w\<lparr>fs := AList.update p
                 \<lparr>IsDir = False, IsRegular = True, FSize = 0, MTime = now, locks = 0, zipDir = None\<rparr> (fs w)\<rparr>))"

text \<open>\<^verbatim>\<open>os.MkdirAll\<close>: every missing directory on the way is created; an element that is
  a file makes it fail.\<close>

definition os_MkdirAll :: "path \<Rightarrow> Time \<Rightarrow> world \<Rightarrow> error + world" where
  "os_MkdirAll p now w =
     (if \<exists>q \<in> set (prefixes p). (case map_of (fs w) q of None \<Rightarrow> False | Some i \<Rightarrow> \<not> IsDir i)
      then Inl (PathError ''mkdir'' p ''not a directory'')
      else Inr (w\<lparr>fs := fold (\<lambda>q al. if q = [] \<or> map_of al q \<noteq> None then al
                   else al @ [(q, \<lparr>IsDir = True, IsRegular = False, FSize = 0, MTime = now, locks = 0, zipDir = None\<rparr>)])
                 (prefixes p) (fs w)\<rparr>))"

text \<open>The entries of the file system in the order a directory listing or a walk meets
  them: sorted by path, which for lists of elements is each directory before its children
  and the children by name.\<close>

definition listing :: "world \<Rightarrow> (path \<times> FileInfo) list" where
  "listing w = sort_key fst (AList.clearjunk (fs w))"

text \<open>\<^verbatim>\<open>os.ReadDir\<close>: name and kind of the entries directly in a directory, by name.\<close>

definition os_ReadDir :: "world \<Rightarrow> path \<Rightarrow> error + (string \<times> bool) list" where
  "os_ReadDir w d =
     (case os_Stat w d of
        Inl err \<Rightarrow> Inl err
      | Inr info \<Rightarrow>
          if \<not> IsDir info then Inl (PathError ''readdir'' d ''not a directory'')
          else Inr (map (\<lambda>(p, i). (last p, IsDir i))
                    (filter (\<lambda>(p, i). p \<noteq> [] \<and> butlast p = d) (listing w))))"

text \<open>
  \<^verbatim>\<open>filepath.Walk\<close>: the root, then everything below it whose ancestors up to the root are
  directories, each directory before its content, names in lexical order. Every entry is
  stat-ed when it is reached and handed to the callback; the first error a callback
  returns stops the walk and is the result. (No callback of this program returns
  \<^verbatim>\<open>SkipDir\<close>, and none touches an entry other than the one it was called for.)
\<close>

definition below_root :: "world \<Rightarrow> path \<Rightarrow> path \<Rightarrow> bool" where
  "below_root w root p =
     (prefix root p \<and>
      (\<forall>q \<in> set (prefixes p). prefix root q \<and> q \<noteq> p \<longrightarrow>
         (case map_of (fs w) q of None \<Rightarrow> False | Some i \<Rightarrow> IsDir i)))"

definition walk_paths :: "world \<Rightarrow> path \<Rightarrow> path list" where
  "walk_paths w root = filter (below_root w root) (map fst (listing w))"

fun walk_list ::
  "(path \<Rightarrow> error + FileInfo \<Rightarrow> 's \<Rightarrow> 's \<times> error option) \<Rightarrow> ('s \<Rightarrow> world) \<Rightarrow>
   path list \<Rightarrow> 's \<Rightarrow> 's \<times> error option" where
  "walk_list fn getw [] s = (s, None)"
| "walk_list fn getw (p # ps) s =
     (case fn p (os_Stat (getw s) p) s of
        (s', Some err) \<Rightarrow> (s', Some err)
      | (s', None) \<Rightarrow> walk_list fn getw ps s')"

definition filepath_Walk ::
  "path \<Rightarrow> (path \<Rightarrow> error + FileInfo \<Rightarrow> 's \<Rightarrow> 's \<times> error option) \<Rightarrow> ('s \<Rightarrow> world) \<Rightarrow>
   's \<Rightarrow> 's \<times> error option" where
  "filepath_Walk root fn getw s =
     (case os_Stat (getw s) root of
        Inl err \<Rightarrow> fn root (Inl err) s
      | Inr info \<Rightarrow> walk_list fn getw (walk_paths (getw s) root) s)"

subsection \<open>Period Grouper: \<^verbatim>\<open>groupKeyForTime\<close> and the grouping step of \<^verbatim>\<open>processLogs\<close>\<close>

definition groupKeyForTime :: "Config \<Rightarrow> Time \<Rightarrow> string" where
  "groupKeyForTime cfg t =
     (if ToLower (ArchiveScope cfg) = ''daily''
      then Format_2006 t @ ''-'' @ Format_01 t @ ''-'' @ Format_02 t
      else Format_2006 t @ ''-'' @ Format_01 t)"

text \<open>The loop \<^verbatim>\<open>groups[key] = append(groups[key], lf)\<close>.\<close>

definition groupFiles :: "Config \<Rightarrow> LogFile list \<Rightarrow> (string \<rightharpoonup> LogFile list)" where
  "groupFiles cfg logFiles =
     fold (\<lambda>lf groups.
             let key = groupKeyForTime cfg (ModTime lf)
             in groups(key \<mapsto> (case groups key of None \<Rightarrow> [] | Some g \<Rightarrow> g) @ [lf]))
          logFiles Map.empty"

text \<open>The exclusion of the current period (lines 208 to 217).\<close>

definition excludeCurrent ::
  "Config \<Rightarrow> Time \<Rightarrow> (string \<rightharpoonup> LogFile list) \<Rightarrow> (string \<rightharpoonup> LogFile list)" where
  "excludeCurrent cfg now groups =
     (let nowKey = groupKeyForTime cfg now
      in if ToLower (ArchiveScope cfg) = ''monthly''
         then (if \<not> CompressCurrentMonth cfg then groups(nowKey := None) else groups)
         else groups(nowKey := None))"

text \<open>The keys of the map after the exclusion, each once, in order of first insertion
  (Go ranges over a map in no fixed order; the group tasks are run in this one).\<close>

definition groupKeys :: "Config \<Rightarrow> LogFile list \<Rightarrow> (string \<rightharpoonup> LogFile list) \<Rightarrow> string list" where
  "groupKeys cfg logFiles groups =
     filter (\<lambda>k. groups k \<noteq> None)
       (remdups (map (\<lambda>lf. groupKeyForTime cfg (ModTime lf)) logFiles))"

subsection \<open>Archive Builder\<close>

definition getCompressionExtension :: "Config \<Rightarrow> string" where
  "getCompressionExtension cfg =
     (if ToLower (CompressionType cfg) = ''zip'' then ''.zip''
      else if ToLower (CompressionType cfg) = ''gzip'' then ''.gz''
      else ''.zip'')"

definition generateArchiveFileName :: "Config \<Rightarrow> Time \<Rightarrow> string" where
  "generateArchiveFileName cfg ref =
     (let pattern = DestFileNamePattern cfg in
      if ToLower (ArchiveScope cfg) = ''daily''
      then
        (let pattern = ReplaceAll pattern ''%Y'' (Format_2006 ref);
             pattern = ReplaceAll pattern ''%m'' (Format_01 ref);
             pattern = ReplaceAll pattern ''%d'' (Format_02 ref);
             pattern = ReplaceAll pattern ''%H'' ''00'';
             pattern = ReplaceAll pattern ''%M'' ''00'';
             pattern = ReplaceAll pattern ''%S'' ''00'';
             pattern = ReplaceAll pattern ''%y'' (Format_06 ref);
             pattern = ReplaceAll pattern ''%j'' (Format_002 ref)
         in pattern @ getCompressionExtension cfg)
      else
        (let pattern = ReplaceAll pattern ''%Y'' (Format_2006 ref);
             pattern = ReplaceAll pattern ''%m'' (Format_01 ref);
             pattern = ReplaceAll pattern ''%d'' ''01'';
             pattern = ReplaceAll pattern ''%H'' ''00'';
             pattern = ReplaceAll pattern ''%M'' ''00'';
             pattern = ReplaceAll pattern ''%S'' ''00'';
             pattern = ReplaceAll pattern ''%y'' (Format_06 ref);
             pattern = ReplaceAll pattern ''%j'' (Format_002 ref)
         in pattern @ getCompressionExtension cfg))"

text \<open>\<^verbatim>\<open>os.Open\<close> of a source, and \<^verbatim>\<open>io.Copy\<close> of it into the current zip entry: the
  number of bytes that reached the entry, and the error if the copy broke. Reading from a
  directory fails at once.\<close>

definition os_Open :: "faults \<Rightarrow> world \<Rightarrow> path \<Rightarrow> error + FileInfo" where
  "os_Open fl w p =
     (case map_of (fs w) p of
        None \<Rightarrow> Inl (PathError ''open'' p ''no such file or directory'')
      | Some info \<Rightarrow>
          if openFails fl p then Inl (PathError ''open'' p ''access is denied'')
          else Inr info)"

definition io_Copy :: "faults \<Rightarrow> path \<Rightarrow> FileInfo \<Rightarrow> int \<times> error option" where
  "io_Copy fl p src =
     (if IsDir src then (0, Some (PathError ''read'' p ''is a directory''))
      else case copyFails fl p of
        Some n \<Rightarrow> (n, Some (PathError ''read'' p ''input/output error''))
      | None \<Rightarrow> (FSize src, None))"

text \<open>
  One round of the loop of \<^verbatim>\<open>addFilesToZip\<close>. The state is the world, the list
  \<^verbatim>\<open>added\<close>, and the entries the zip writer holds so far. An entry whose copy broke stays
  in the container with the bytes that were written.
\<close>

definition record_error :: "string \<Rightarrow> world \<Rightarrow> world" where
  "record_error msg w = mu_Unlock (write_stats (append_error msg) (mu_Lock w))"

definition addFile ::
  "faults \<Rightarrow> LogFile \<Rightarrow> world \<times> path list \<times> (string \<times> 64 word) list \<Rightarrow>
   world \<times> path list \<times> (string \<times> 64 word) list" where
  "addFile fl lf st =
     (case st of (w, added, zw) \<Rightarrow>
        (case os_Open fl w (Path lf) of
           Inl err \<Rightarrow>
             (record_error (''open '' @ path_string (Path lf) @ '': '' @ error_string err) w,
              added, zw)
         | Inr srcFile \<Rightarrow>
             let entryName = Base (Path lf) in
             if entryFails fl (Path lf)
             then (record_error (''zip entry '' @ path_string (Path lf) @ '': write error'') w,
                   added, zw)
             else
               (case io_Copy fl (Path lf) srcFile of
                  (n, Some err) \<Rightarrow>
                    (record_error
                       (''zip copy '' @ path_string (Path lf) @ '': '' @ error_string err) w,
                     added, zw @ [(entryName, word_of_int n)])
                | (n, None) \<Rightarrow>
                    (mu_Unlock
                       (write_stats (\<lambda>s. s\<lparr>FilesProcessed := FilesProcessed s + 1,
                                             FilesCompressed := FilesCompressed s + 1,
                                             TotalSizeBefore := TotalSizeBefore s + Size lf\<rparr>)
                          (mu_Lock w)),
                     added @ [Path lf], zw @ [(entryName, word_of_int n)]))))"

text \<open>
  \<^verbatim>\<open>addFilesToZip\<close>: the loop, then \<^verbatim>\<open>zipWriter.Close\<close>, which writes the central
  directory; from then on the file at \<open>destPath\<close> is a zip container with these entries.
\<close>

definition addFilesToZip ::
  "faults \<Rightarrow> path \<Rightarrow> LogFile list \<Rightarrow> world \<Rightarrow> world \<times> path list \<times> error option" where
  "addFilesToZip fl destPath files w =
     (case fold (addFile fl) files (w, [], []) of (w1, added, zw) \<Rightarrow>
        if zipCloseFails fl destPath
        then (w1, added, Some (Errorf ''closing zip writer: write error''))
        else
          (case map_of (fs w1) destPath of
             None \<Rightarrow> (w1, added, None)
           | Some info \<Rightarrow>
               (w1\<lparr>fs := AList.update destPath
                      (info\<lparr>FSize := containerSize fl zw, zipDir := Some zw\<rparr>) (fs w1)\<rparr>,
                added, None)))"

subsection \<open>Integrity Verifier\<close>

text \<open>\<^verbatim>\<open>zip.OpenReader\<close>: the central directory of the container, or an error when
  the file is missing, cannot be opened, or is not a zip container.\<close>

definition zip_OpenReader :: "faults \<Rightarrow> world \<Rightarrow> path \<Rightarrow> error + (string \<times> 64 word) list" where
  "zip_OpenReader fl w p =
     (case map_of (fs w) p of
        None \<Rightarrow> Inl (PathError ''open'' p ''no such file or directory'')
      | Some info \<Rightarrow>
          if reopenFails fl p then Inl (PathError ''open'' p ''access is denied'')
          else (case zipDir info of
                  None \<Rightarrow> Inl (Errorf ''zip: not a valid zip file'')
                | Some zr \<Rightarrow> Inr zr))"

text \<open>The map \<^verbatim>\<open>entries[f.Name] = f.UncompressedSize64\<close>; a later entry of the same name
  replaces an earlier one.\<close>

definition entriesOf :: "(string \<times> 64 word) list \<Rightarrow> (string \<rightharpoonup> 64 word)" where
  "entriesOf zr = fold (\<lambda>(name, usize) entries. entries(name \<mapsto> usize)) zr Map.empty"

text \<open>The body of the second loop: the value stored at \<^verbatim>\<open>result[p]\<close>. The comparison
  \<^verbatim>\<open>int64(u) == size\<close> reads the unsigned 64-bit size as a signed one.\<close>

definition verifyOne :: "world \<Rightarrow> (string \<rightharpoonup> 64 word) \<Rightarrow> path \<Rightarrow> bool" where
  "verifyOne w entries p =
     (let base = Base p in
      case os_Stat w p of
        Inl err \<Rightarrow> False
      | Inr stat \<Rightarrow>
          (let size = FSize stat in
           case entries base of
             Some u \<Rightarrow> if sint u = size then True else False
           | None \<Rightarrow> False))"

definition verifyZipContainsAll ::
  "faults \<Rightarrow> path \<Rightarrow> path list \<Rightarrow> world \<Rightarrow> (path \<rightharpoonup> bool) \<times> world" where
  "verifyZipContainsAll fl zipPath added w =
     (case zip_OpenReader fl w zipPath of
        Inl err \<Rightarrow>
          (fold (\<lambda>p result. result(p \<mapsto> False)) added Map.empty,
           write_stats
             (append_error
                (''verify open zip '' @ path_string zipPath @ '': '' @ error_string err)) w)
      | Inr zr \<Rightarrow>
          (let entries = entriesOf zr
           in (fold (\<lambda>p result. result(p \<mapsto> verifyOne w entries p)) added Map.empty, w)))"

subsection \<open>Deletion Guard\<close>

text \<open>\<^verbatim>\<open>deleteWithRetry\<close>: up to \<open>attempts\<close> calls of \<^verbatim>\<open>os.Remove\<close>; the first success
  returns, after the last failure its error is returned.\<close>

fun retry_loop :: "path \<Rightarrow> nat \<Rightarrow> error option \<Rightarrow> world \<Rightarrow> world \<times> error option" where
  "retry_loop p 0 lastErr w = (w, lastErr)"
| "retry_loop p (Suc n) lastErr w =
     (case os_Remove p w of
        (w', Some err) \<Rightarrow> retry_loop p n (Some err) w'
      | (w', None) \<Rightarrow> (w', None))"

definition deleteWithRetry :: "path \<Rightarrow> nat \<Rightarrow> world \<Rightarrow> world \<times> error option" where
  "deleteWithRetry p attempts w = retry_loop p attempts None w"

text \<open>The loop \<^verbatim>\<open>for path, ok := range verified\<close> (lines 308 to 314): \<open>keys\<close> are the
  keys of the map; a failed deletion is only a warning.\<close>

definition deleteVerified :: "(path \<rightharpoonup> bool) \<Rightarrow> path list \<Rightarrow> world \<Rightarrow> world" where
  "deleteVerified verified keys w =
     fold (\<lambda>p w. if verified p = Some True then fst (deleteWithRetry p 3 w) else w) keys w"

subsection \<open>One group task: \<^verbatim>\<open>compressMonthGroup\<close>\<close>

definition destPathOf :: "Config \<Rightarrow> LogFile list \<Rightarrow> path" where
  "destPathOf cfg files =
     Join (DestFolder cfg) (generateArchiveFileName cfg (ModTime (hd files)))"

definition compressMonthGroup ::
  "Config \<Rightarrow> faults \<Rightarrow> Time \<Rightarrow> string \<Rightarrow> LogFile list \<Rightarrow> world \<Rightarrow> world \<times> error option" where
  "compressMonthGroup cfg fl now groupKey files w =
     (if files = [] then (w, None)
      else
        let destPath = destPathOf cfg files in
        case os_Create destPath now w of
          Inl err \<Rightarrow>
            (w, Some (Errorf (''failed to create destination file: '' @ error_string err)))
        | Inr w0 \<Rightarrow>
            if ToLower (CompressionType cfg) = ''zip''
            then
              (case addFilesToZip fl destPath files w0 of
                 (w1, added, Some err) \<Rightarrow> (fst (os_Remove destPath w1), Some err)
               | (w1, added, None) \<Rightarrow>
                   if fileCloseFails fl destPath
                   then (w1, Some (Errorf ''closing destination file: write error''))
                   else
                     (case verifyZipContainsAll fl destPath added w1 of (verified, w2) \<Rightarrow>
                        let w3 = (if DeleteOriginalAfterCompress cfg
                                  then deleteVerified verified (remdups added) w2
                                  else w2);
                            w4 = (case os_Stat w3 destPath of
                                    Inr info \<Rightarrow>
                                      mu_Unlock
                                        (write_stats
                                           (\<lambda>s. s\<lparr>TotalSizeAfter := TotalSizeAfter s + FSize info\<rparr>)
                                           (mu_Lock w3))
                                  | Inl err \<Rightarrow> w3)
                        in (w4, None)))
            else if ToLower (CompressionType cfg) = ''gzip''
            then (fst (os_Remove destPath w0),
                  Some (Errorf ''grouped mode requires zip compression; gzip not supported for grouped archive''))
            else (fst (os_Remove destPath w0),
                  Some (Errorf (''unsupported compression type: '' @ CompressionType cfg
                                @ '' (supported: zip)''))))"

subsection \<open>File Scanner and \<^verbatim>\<open>processLogs\<close>\<close>

definition scanFn ::
  "Time \<Rightarrow> path \<Rightarrow> error + FileInfo \<Rightarrow> world \<times> LogFile list \<Rightarrow>
   (world \<times> LogFile list) \<times> error option" where
  "scanFn cutoffDate p r st =
     (case r of
        Inl err \<Rightarrow> (st, Some err)
      | Inr info \<Rightarrow>
          if IsDir info then (st, None)
          else if After (MTime info) cutoffDate then (st, None)
          else
            (let ext = ToLower (Ext p) in
             if ext = ''.log'' \<or> ext = ''.txt'' \<or> Contains (ToLower (path_string p)) ''log''
             then ((fst st, snd st @ [\<lparr>Path = p, Size = FSize info, ModTime = MTime info\<rparr>]), None)
             else (st, None)))"

definition findLogFiles :: "Config \<Rightarrow> Time \<Rightarrow> world \<Rightarrow> LogFile list \<times> error option" where
  "findLogFiles cfg now w =
     (let cutoffDate = AddDate_days now (- LogAgeDays cfg) in
      case filepath_Walk (SourceFolder cfg) (scanFn cutoffDate) fst (w, []) of
        ((w', logFiles), err) \<Rightarrow> (sort_key ModTime logFiles, err))"

text \<open>The body of one goroutine of \<^verbatim>\<open>processLogs\<close>.\<close>

definition groupTask ::
  "Config \<Rightarrow> faults \<Rightarrow> Time \<Rightarrow> (string \<rightharpoonup> LogFile list) \<Rightarrow> string \<Rightarrow> world \<Rightarrow> world" where
  "groupTask cfg fl now groups gk w =
     (let files = (case groups gk of None \<Rightarrow> [] | Some g \<Rightarrow> g) in
      case compressMonthGroup cfg fl now gk files w of
        (w', Some err) \<Rightarrow>
          record_error (''Error compressing group '' @ gk @ '': '' @ error_string err) w'
      | (w', None) \<Rightarrow> w')"

text \<open>\<^verbatim>\<open>processLogs\<close>, with the group tasks run one after the other.\<close>

definition processLogs :: "Config \<Rightarrow> faults \<Rightarrow> Time \<Rightarrow> world \<Rightarrow> world \<times> error option" where
  "processLogs cfg fl now w =
     (case os_MkdirAll (DestFolder cfg) now w of
        Inl err \<Rightarrow>
          (w, Some (Errorf (''failed to create destination folder: '' @ error_string err)))
      | Inr w0 \<Rightarrow>
          (case findLogFiles cfg now w0 of
             (logFiles, Some err) \<Rightarrow>
               (w0, Some (Errorf (''failed to find log files: '' @ error_string err)))
           | (logFiles, None) \<Rightarrow>
               if logFiles = [] then (w0, None)
               else
                 (let groups = excludeCurrent cfg now (groupFiles cfg logFiles);
                      keys = groupKeys cfg logFiles groups;
                      w1 = write_stats (\<lambda>s. s\<lparr>GroupCount := int (length keys)\<rparr>) w0
                  in (fold (groupTask cfg fl now groups) keys w1, None))))"

subsection \<open>Retention Manager: \<^verbatim>\<open>cleanupOldCompressedLogs\<close>\<close>

text \<open>Option A, the first loop (lines 630 to 643): the files that count as archives.\<close>

definition archiveFiles :: "Config \<Rightarrow> world \<Rightarrow> (string \<times> bool) list \<Rightarrow> (path \<times> Time) list" where
  "archiveFiles cfg w entries =
     concat (map (\<lambda>(name, isdir).
        if isdir then []
        else
          (let p = Join (DestFolder cfg) name in
           if \<not> HasSuffix (ToLower name) ''.zip'' \<and> \<not> HasSuffix (ToLower name) ''.gz''
           then []
           else (case os_Stat w p of Inl err \<Rightarrow> [] | Inr fi \<Rightarrow> [(p, MTime fi)]))) entries)"

text \<open>Option A, the second loop (lines 645 to 650), over the files sorted newest first.\<close>

definition removeBeyond :: "int \<Rightarrow> (path \<times> Time) list \<Rightarrow> world \<Rightarrow> world" where
  "removeBeyond n files w =
     fold (\<lambda>(idx, f) w. if int idx \<ge> n then fst (os_Remove (fst f) w) else w)
          (enumerate 0 files) w"

definition keepLastN :: "Config \<Rightarrow> world \<Rightarrow> world \<times> error option" where
  "keepLastN cfg w =
     (case os_ReadDir w (DestFolder cfg) of
        Inl err \<Rightarrow> (w, Some err)
      | Inr entries \<Rightarrow>
          (let files = archiveFiles cfg w entries;
               files = sort_key (\<lambda>f. - snd f) files
           in (removeBeyond (KeepLastNArchives cfg) files w, None)))"

text \<open>Option B, the callback handed to \<^verbatim>\<open>filepath.Walk\<close> (lines 659 to 671).\<close>

definition retentionFn :: "Time \<Rightarrow> path \<Rightarrow> error + FileInfo \<Rightarrow> world \<Rightarrow> world \<times> error option" where
  "retentionFn cutoffDate p r w =
     (case r of
        Inl err \<Rightarrow> (w, Some err)
      | Inr info \<Rightarrow>
          if IsDir info then (w, None)
          else if Before (MTime info) cutoffDate then os_Remove p w
          else (w, None))"

definition ageCutoff :: "Config \<Rightarrow> Time \<Rightarrow> world \<Rightarrow> world \<times> error option" where
  "ageCutoff cfg now w =
     (let cutoffDate = AddDate_days now (- RetentionDays cfg)
      in filepath_Walk (DestFolder cfg) (retentionFn cutoffDate) (\<lambda>w. w) w)"

definition cleanupOldCompressedLogs :: "Config \<Rightarrow> Time \<Rightarrow> world \<Rightarrow> world \<times> error option" where
  "cleanupOldCompressedLogs cfg now w =
     (if KeepLastNArchives cfg > 0 then keepLastN cfg w
      else if RetentionDays cfg \<le> 0 then (w, None)
      else ageCutoff cfg now w)"

subsection \<open>Concrete runs\<close>

text \<open>A configuration, a fault-free environment and small file systems, used to run the
  definitions on concrete inputs.\<close>

definition ex_cfg :: Config where
  "ex_cfg = \<lparr>SourceFolder = [''logs''], DestFolder = [''arch''], LogAgeDays = 7,
     RetentionDays = 30, CleanupOldLogs = True, DeleteOriginalAfterCompress = True,
     CompressCurrentMonth = False, ArchiveScope = ''monthly'', KeepLastNArchives = 0,
     DestFileNamePattern = ''iis_%Y%m'', CompressionType = ''zip'', MaxCPUs = 0\<rparr>"

definition ex_faults :: faults where
  "ex_faults = \<lparr>openFails = (\<lambda>p. False), entryFails = (\<lambda>p. False), copyFails = (\<lambda>p. None),
     zipCloseFails = (\<lambda>p. False), fileCloseFails = (\<lambda>p. False), reopenFails = (\<lambda>p. False),
     containerSize = (\<lambda>zw. 22 + 100 * int (length zw))\<rparr>"

definition ex_stats :: CompressionStats where
  "ex_stats = \<lparr>FilesProcessed = 0, FilesCompressed = 0, TotalSizeBefore = 0, TotalSizeAfter = 0,
     Errors = [], StartTime = 0, EndTime = 0, EmailStatus = [], GroupCount = 0\<rparr>"

definition ex_file :: "int \<Rightarrow> Time \<Rightarrow> FileInfo" where
  "ex_file sz t = \<lparr>IsDir = False, IsRegular = True, FSize = sz, MTime = t, locks = 0, zipDir = None\<rparr>"

definition ex_dir :: FileInfo where
  "ex_dir = \<lparr>IsDir = True, IsRegular = False, FSize = 0, MTime = 0, locks = 0, zipDir = None\<rparr>"

text \<open>Midnight of day \<open>n\<close> after 1970-01-01; day 19800 is 2024-03-18.\<close>

definition ex_day :: "int \<Rightarrow> Time" where
  "ex_day n = n * nsPerDay"

text \<open>A container \<^verbatim>\<open>m.zip\<close> holding \<^verbatim>\<open>x.log\<close> (100 bytes) and \<^verbatim>\<open>y.log\<close> (5 bytes), next to
  live sources of 100 and 7 bytes.\<close>

definition ex_verify_world :: world where
  "ex_verify_world =
     \<lparr>fs = [([''arch''], ex_dir),
            ([''arch'', ''m.zip''],
               (ex_file 222 (ex_day 19800))\<lparr>zipDir := Some [(''x.log'', 100), (''y.log'', 5)]\<rparr>),
            ([''logs''], ex_dir),
            ([''logs'', ''x.log''], ex_file 100 (ex_day 19723)),
            ([''logs'', ''y.log''], ex_file 7 (ex_day 19724))],
      stats = ex_stats, mu = False, unguarded = 0\<rparr>"

definition ex_added :: "path list" where
  "ex_added = [[''logs'', ''x.log''], [''logs'', ''y.log''], [''logs'', ''z.log'']]"


text \<open>Four IIS logs under \<^verbatim>\<open>logs/W3SVC1\<close> and an empty archive folder; the two January
  logs are one monthly group.\<close>

definition ex_world :: world where
  "ex_world =
     \<lparr>fs = [([''logs''], ex_dir),
            ([''logs'', ''W3SVC1''], ex_dir),
            ([''logs'', ''W3SVC1'', ''u_ex240101.log''], ex_file 100 (ex_day 19723 + 5)),
            ([''logs'', ''W3SVC1'', ''u_ex240102.log''], ex_file 200 (ex_day 19724)),
            ([''logs'', ''W3SVC1'', ''u_ex240201.log''], ex_file 300 (ex_day 19754)),
            ([''logs'', ''W3SVC1'', ''u_ex240310.log''], ex_file 400 (ex_day 19792)),
            ([''arch''], ex_dir)],
      stats = ex_stats, mu = False, unguarded = 0\<rparr>"

definition ex_january :: "LogFile list" where
  "ex_january =
     [\<lparr>Path = [''logs'', ''W3SVC1'', ''u_ex240101.log''], Size = 100, ModTime = ex_day 19723 + 5\<rparr>,
      \<lparr>Path = [''logs'', ''W3SVC1'', ''u_ex240102.log''], Size = 200, ModTime = ex_day 19724\<rparr>]"

text \<open>One old log, one log written today, and an empty archive folder.\<close>

definition ex_small :: world where
  "ex_small =
     \<lparr>fs = [([''logs''], ex_dir),
            ([''logs'', ''a.log''], ex_file 100 (ex_day 19723)),
            ([''logs'', ''b.log''], ex_file 200 (ex_day 19800)),
            ([''arch''], ex_dir)],
      stats = ex_stats, mu = False, unguarded = 0\<rparr>"

text \<open>An archive folder for the retention sweep at day 19800 with 30 retention days: one
  container exactly at the cutoff instant, one newer, one 1000 nanoseconds older.\<close>

definition ex_retention_world :: world where
  "ex_retention_world =
     \<lparr>fs = [([''arch''], ex_dir),
            ([''arch'', ''edge.zip''], ex_file 50 (ex_day 19770)),
            ([''arch'', ''new.zip''], ex_file 60 (ex_day 19790)),
            ([''arch'', ''old.zip''], ex_file 70 (ex_day 19770 - 1000))],
      stats = ex_stats, mu = False, unguarded = 0\<rparr>"

text \<open>An archive folder with three archives, a text file, and a directory whose name
  ends in \<^verbatim>\<open>.zip\<close>.\<close>

definition ex_keep_world :: world where
  "ex_keep_world =
     \<lparr>fs = [([''arch''], ex_dir),
            ([''arch'', ''a.zip''], ex_file 50 (ex_day 19700)),
            ([''arch'', ''b.ZIP''], ex_file 60 (ex_day 19710)),
            ([''arch'', ''c.gz''], ex_file 70 (ex_day 19720)),
            ([''arch'', ''notes.txt''], ex_file 5 (ex_day 19000)),
            ([''arch'', ''sub.zip''], ex_dir),
            ([''arch'', ''sub.zip'', ''d.zip''], ex_file 80 (ex_day 19000))],
      stats = ex_stats, mu = False, unguarded = 0\<rparr>"

text \<open>An archive folder with three old archives; another process holds \<^verbatim>\<open>b.zip\<close>, so
  that the next three attempts to remove it fail.\<close>

definition ex_locked_world :: world where
  "ex_locked_world =
     \<lparr>fs = [([''arch''], ex_dir),
            ([''arch'', ''a.zip''], ex_file 50 (ex_day 19000)),
            ([''arch'', ''b.zip''], (ex_file 60 (ex_day 19001))\<lparr>locks := 3\<rparr>),
            ([''arch'', ''c.zip''], ex_file 70 (ex_day 19002))],
      stats = ex_stats, mu = False, unguarded = 0\<rparr>"

text \<open>Two IIS sites that each hold a log of the same name for the same day, and the
  state after the January group was archived without deleting the originals.\<close>

definition ex_sites_world :: world where
  "ex_sites_world =
     \<lparr>fs = [([''logs''], ex_dir),
            ([''logs'', ''W3SVC1''], ex_dir),
            ([''logs'', ''W3SVC1'', ''u_ex240101.log''], ex_file 5 (ex_day 19723)),
            ([''logs'', ''W3SVC2''], ex_dir),
            ([''logs'', ''W3SVC2'', ''u_ex240101.log''], ex_file 7 (ex_day 19723 + 9)),
            ([''arch''], ex_dir)],
      stats = ex_stats, mu = False, unguarded = 0\<rparr>"

definition ex_sites :: "LogFile list" where
  "ex_sites =
     [\<lparr>Path = [''logs'', ''W3SVC1'', ''u_ex240101.log''], Size = 5, ModTime = ex_day 19723\<rparr>,
      \<lparr>Path = [''logs'', ''W3SVC2'', ''u_ex240101.log''], Size = 7, ModTime = ex_day 19723 + 9\<rparr>]"

definition ex_sites_archived :: world where
  "ex_sites_archived =
     ex_sites_world\<lparr>fs := fs ex_sites_world @
        [([''arch'', ''iis_202401.zip''],
          \<lparr>IsDir = False, IsRegular = True, FSize = 222, MTime = ex_day 19800, locks = 0,
             zipDir = Some [(''u_ex240101.log'', 5), (''u_ex240101.log'', 7)]\<rparr>)]\<rparr>"









section \<open>Properties\<close>

subsection \<open>Effects of the operations on the state\<close>

lemma fold_map_upd:
  "fold (\<lambda>p result. result(p \<mapsto> f p)) ps m q = (if q \<in> set ps then Some (f q) else m q)"
  by (induction ps arbitrary: m) auto

lemma fs_mu [simp]: "fs (mu_Lock w) = fs w" "fs (mu_Unlock w) = fs w"
  "fs (write_stats f w) = fs w" "fs (record_error msg w) = fs w"
  by (simp_all add: mu_Lock_def mu_Unlock_def write_stats_def record_error_def)

lemma stats_mu [simp]: "stats (mu_Lock w) = stats w" "stats (mu_Unlock w) = stats w"
  "stats (write_stats f w) = f (stats w)"
  "stats (record_error msg w) = append_error msg (stats w)"
  by (simp_all add: mu_Lock_def mu_Unlock_def write_stats_def record_error_def)

lemma counters_append_error [simp]:
  "FilesProcessed (append_error msg s) = FilesProcessed s"
  "FilesCompressed (append_error msg s) = FilesCompressed s"
  by (simp_all add: append_error_def)

subsection \<open>Period Grouper\<close>





subsection \<open>Integrity Verifier\<close>

lemma sint_nonneg_uint: "sint (u :: 64 word) = s \<Longrightarrow> 0 \<le> s \<Longrightarrow> uint u = s"
  using sint_lt[of u] by (simp add: uint_sint take_bit_int_eq_self)

lemma entriesOf_fold:
  fixes step :: "string \<times> 64 word \<Rightarrow> (string \<rightharpoonup> 64 word) \<Rightarrow> (string \<rightharpoonup> 64 word)"
  defines "step \<equiv> (\<lambda>(name, usize) entries. entries(name \<mapsto> usize))"
  shows "fold step zr m = m ++ map_of (rev zr)"
proof (induction zr arbitrary: m)
  case Nil
  then show ?case by simp
next
  case (Cons e zr)
  obtain n u where e: "e = (n, u)" by (cases e)
  have s: "step e m = m(n \<mapsto> u)" by (simp add: step_def e)
  have h: "m(n \<mapsto> u) ++ map_of (rev zr) = m ++ map_of (rev ((n, u) # zr))"
    by (simp add: map_add_def fun_eq_iff split: option.splits)
  have "fold step (e # zr) m = fold step zr (step e m)" by simp
  also have "\<dots> = step e m ++ map_of (rev zr)" by (rule Cons)
  also have "\<dots> = m(n \<mapsto> u) ++ map_of (rev zr)" by (simp only: s)
  also have "\<dots> = m ++ map_of (rev ((n, u) # zr))" by (rule h)
  finally show ?case unfolding e .
qed

lemma entriesOf_last: "entriesOf zr = map_of (rev zr)"
  unfolding entriesOf_def by (simp add: entriesOf_fold)

lemma verifyOne_iff:
  "verifyOne w (entriesOf zr) p =
     (\<exists>stat u. os_Stat w p = Inr stat \<and> map_of (rev zr) (Base p) = Some u
               \<and> sint u = FSize stat)"
  by (auto simp: verifyOne_def entriesOf_last Let_def split: sum.splits option.splits)

text \<open>
  Claim C3 as stated: a listed path is true exactly when the container opens, the live
  source can be stat-ed, and the container holds an entry under the base name of the path
  whose uncompressed size equals the current size of the live file. The run below archives
  the logs of two sites that have the same base name: the container holds both entries,
  the first with the size of the first site's log, all three conditions hold for that
  log, and the Verifier maps it to false, because the map from entry name to size keeps
  the later entry of the name.
\<close>

theorem verifier_duplicate_names_counterexample:
  "fs (fst (compressMonthGroup (ex_cfg\<lparr>DeleteOriginalAfterCompress := False\<rparr>) ex_faults
              (ex_day 19800) ''2024-01'' ex_sites ex_sites_world)) = fs ex_sites_archived
   \<and> zip_OpenReader ex_faults ex_sites_archived [''arch'', ''iis_202401.zip'']
        = Inr [(''u_ex240101.log'', 5), (''u_ex240101.log'', 7)]
   \<and> os_Stat ex_sites_archived [''logs'', ''W3SVC1'', ''u_ex240101.log'']
        = Inr (ex_file 5 (ex_day 19723))
   \<and> (Base [''logs'', ''W3SVC1'', ''u_ex240101.log''], 5)
        \<in> set [(''u_ex240101.log'', 5 :: 64 word), (''u_ex240101.log'', 7)]
   \<and> sint (5 :: 64 word) = FSize (ex_file 5 (ex_day 19723))
   \<and> fst (verifyZipContainsAll ex_faults [''arch'', ''iis_202401.zip'']
             [[''logs'', ''W3SVC1'', ''u_ex240101.log''],
              [''logs'', ''W3SVC2'', ''u_ex240101.log'']] ex_sites_archived)
        [''logs'', ''W3SVC1'', ''u_ex240101.log''] = Some False"
  by code_simp

text \<open>
  Claim C3, amended. The Verifier maps each listed path to true exactly when the container
  opens, the live source can be stat-ed, and the last entry of the container under the base
  name of the path (\<open>map_of (rev zr)\<close> finds the last entry of a name) has an uncompressed
  size equal to the current size of the live file, compared as \<^verbatim>\<open>int64\<close>; for a size
  that is not negative the two are then equal as numbers. Paths that are not listed get no
  entry. If the container cannot be opened, every listed path is mapped to false and one
  error is appended to the statistics.
\<close>

theorem verifier_spec:
  "(\<forall>p \<in> set added. fst (verifyZipContainsAll fl zp added w) p =
        Some (\<exists>zr stat u. zip_OpenReader fl w zp = Inr zr \<and> os_Stat w p = Inr stat
                \<and> map_of (rev zr) (Base p) = Some u \<and> sint u = FSize stat))
   \<and> (\<forall>p. p \<notin> set added \<longrightarrow> fst (verifyZipContainsAll fl zp added w) p = None)
   \<and> (\<forall>err. zip_OpenReader fl w zp = Inl err \<longrightarrow>
         (\<forall>p \<in> set added. fst (verifyZipContainsAll fl zp added w) p = Some False)
         \<and> Errors (stats (snd (verifyZipContainsAll fl zp added w))) =
             Errors (stats w) @
               [''verify open zip '' @ path_string zp @ '': '' @ error_string err])
   \<and> (\<forall>p. fst (verifyZipContainsAll fl zp added w) p = Some True \<longrightarrow>
         (\<exists>zr stat u. zip_OpenReader fl w zp = Inr zr \<and> os_Stat w p = Inr stat
                \<and> map_of (rev zr) (Base p) = Some u
                \<and> (0 \<le> FSize stat \<longrightarrow> uint u = FSize stat)))"
proof (cases "zip_OpenReader fl w zp")
  case (Inl err)
  then show ?thesis
    by (simp add: verifyZipContainsAll_def fold_map_upd append_error_def split: if_splits)
next
  case (Inr zr)
  have r: "fst (verifyZipContainsAll fl zp added w) p =
             (if p \<in> set added then Some (verifyOne w (entriesOf zr) p) else None)" for p
    using Inr by (simp add: verifyZipContainsAll_def fold_map_upd Let_def)
  have t: "\<exists>stat u. os_Stat w p = Inr stat \<and> map_of (rev zr) (Base p) = Some u
                \<and> (0 \<le> FSize stat \<longrightarrow> uint u = FSize stat)"
    if "fst (verifyZipContainsAll fl zp added w) p = Some True" for p
  proof -
    from that r have "verifyOne w (entriesOf zr) p" by (simp split: if_splits)
    then obtain stat u where "os_Stat w p = Inr stat" "map_of (rev zr) (Base p) = Some u"
      "sint u = FSize stat" unfolding verifyOne_iff by blast
    then show ?thesis using sint_nonneg_uint by blast
  qed
  from Inr r t show ?thesis
    by (simp add: verifyOne_iff)
qed

theorem verifier_spec_witness:
  "[''logs'', ''x.log''] \<in> set ex_added
   \<and> (\<exists>zr stat u. zip_OpenReader ex_faults ex_verify_world [''arch'', ''m.zip''] = Inr zr
         \<and> os_Stat ex_verify_world [''logs'', ''x.log''] = Inr stat
         \<and> map_of (rev zr) (Base [''logs'', ''x.log'']) = Some u \<and> sint u = FSize stat)
   \<and> fst (verifyZipContainsAll ex_faults [''arch'', ''m.zip''] ex_added ex_verify_world)
        [''logs'', ''y.log''] = Some False
   \<and> [''logs'', ''q.log''] \<notin> set ex_added
   \<and> fst (verifyZipContainsAll ex_faults [''arch'', ''m.zip''] ex_added ex_verify_world)
        [''logs'', ''q.log''] = None
   \<and> zip_OpenReader (ex_faults\<lparr>reopenFails := (\<lambda>p. True)\<rparr>) ex_verify_world [''arch'', ''m.zip'']
        = Inl (PathError ''open'' [''arch'', ''m.zip''] ''access is denied'')
   \<and> fst (verifyZipContainsAll (ex_faults\<lparr>reopenFails := (\<lambda>p. True)\<rparr>) [''arch'', ''m.zip'']
             ex_added ex_verify_world) [''logs'', ''x.log''] = Some False"
proof -
  let ?zp = "[''arch'', ''m.zip'']"
  let ?x = "[''logs'', ''x.log'']"
  let ?fl = "ex_faults\<lparr>reopenFails := (\<lambda>p. True)\<rparr>"
  have hx: "?x \<in> set ex_added" by (simp add: ex_added_def)
  have hq: "[''logs'', ''q.log''] \<notin> set ex_added" by (simp add: ex_added_def)
  have ex: "fst (verifyZipContainsAll ex_faults ?zp ex_added ex_verify_world) ?x = Some True"
    by code_simp
  have ey: "fst (verifyZipContainsAll ex_faults ?zp ex_added ex_verify_world)
              [''logs'', ''y.log''] = Some False"
    by code_simp
  have ho: "zip_OpenReader ?fl ex_verify_world ?zp
              = Inl (PathError ''open'' ?zp ''access is denied'')"
    by code_simp
  note v = verifier_spec[of ex_added ex_faults ?zp ex_verify_world]
  from v hx ex
  have c1: "\<exists>zr stat u. zip_OpenReader ex_faults ex_verify_world ?zp = Inr zr
         \<and> os_Stat ex_verify_world ?x = Inr stat
         \<and> map_of (rev zr) (Base ?x) = Some u \<and> sint u = FSize stat"
    by simp
  from v hq
  have c2: "fst (verifyZipContainsAll ex_faults ?zp ex_added ex_verify_world)
              [''logs'', ''q.log''] = None"
    by blast
  from verifier_spec[of ex_added ?fl ?zp ex_verify_world] ho hx
  have c3: "fst (verifyZipContainsAll ?fl ?zp ex_added ex_verify_world) ?x = Some False"
    by blast
  from hx c1 ey hq c2 ho c3 show ?thesis by blast
qed

subsection \<open>Retention Manager\<close>

lemma archiveFiles_RetentionDays:
  "archiveFiles (cfg\<lparr>RetentionDays := d\<rparr>) w entries = archiveFiles cfg w entries"
  by (simp add: archiveFiles_def cong: if_cong)

lemma keepLastN_RetentionDays:
  "keepLastN (cfg\<lparr>RetentionDays := d\<rparr>) w = keepLastN cfg w"
  by (simp add: keepLastN_def archiveFiles_RetentionDays split: sum.splits)

subsection \<open>What the system calls and the stages of a group task change\<close>

lemma os_Remove_frame:
  assumes "os_Remove p w = (w', r)"
  shows "stats w' = stats w" and "q \<noteq> p \<Longrightarrow> map_of (fs w') q = map_of (fs w) q"
  using assms
  by (auto simp: os_Remove_def update_conv' delete_conv' split: option.splits if_splits)

lemma retry_loop_frame:
  assumes "retry_loop p n e w = (w', r)"
  shows "stats w' = stats w \<and> (q \<noteq> p \<longrightarrow> map_of (fs w') q = map_of (fs w) q)"
  using assms
proof (induction n arbitrary: e w)
  case 0
  then show ?case by simp
next
  case (Suc n)
  obtain w1 r1 where rm: "os_Remove p w = (w1, r1)" by (cases "os_Remove p w")
  show ?case
  proof (cases r1)
    case None
    with Suc.prems rm have "w' = w1" by simp
    with os_Remove_frame[OF rm] show ?thesis by simp
  next
    case (Some err)
    with Suc.prems rm have "retry_loop p n (Some err) w1 = (w', r)" by simp
    from Suc.IH[OF this] os_Remove_frame[OF rm] show ?thesis by simp
  qed
qed

lemma deleteWithRetry_frame:
  "stats (fst (deleteWithRetry p n w)) = stats w"
  "q \<noteq> p \<Longrightarrow> map_of (fs (fst (deleteWithRetry p n w))) q = map_of (fs w) q"
  using retry_loop_frame[of p n None w "fst (deleteWithRetry p n w)" "snd (deleteWithRetry p n w)" q]
  by (simp_all add: deleteWithRetry_def)

lemma deleteVerified_stats: "stats (deleteVerified verified keys w) = stats w"
  unfolding deleteVerified_def
  by (induction keys arbitrary: w) (simp_all add: deleteWithRetry_frame)


lemma os_Create_frame:
  assumes "os_Create p now w = Inr w0"
  shows "stats w0 = stats w" and "q \<noteq> p \<Longrightarrow> map_of (fs w0) q = map_of (fs w) q"
  using assms
  by (auto simp: os_Create_def update_conv' split: option.splits if_splits)



lemma addFile_counters:
  assumes "addFile fl lf (w, added, zw) = (w', added', zw')"
  shows "FilesProcessed (stats w') - int (length added') = FilesProcessed (stats w) - int (length added)"
    and "FilesCompressed (stats w') - int (length added') = FilesCompressed (stats w) - int (length added)"
  using assms
  by (auto simp: addFile_def Let_def split: prod.splits sum.splits option.splits if_splits)

lemma fold_addFile_counters:
  assumes "fold (addFile fl) files (w, added, zw) = (w', added', zw')"
  shows "FilesProcessed (stats w') - int (length added') = FilesProcessed (stats w) - int (length added)
       \<and> FilesCompressed (stats w') - int (length added') = FilesCompressed (stats w) - int (length added)"
  using assms
proof (induction files arbitrary: w added zw)
  case Nil
  then show ?case by simp
next
  case (Cons lf files)
  obtain w1 a1 z1 where s: "addFile fl lf (w, added, zw) = (w1, a1, z1)"
    by (cases "addFile fl lf (w, added, zw)")
  with Cons.prems have "fold (addFile fl) files (w1, a1, z1) = (w', added', zw')" by simp
  from Cons.IH[OF this] addFile_counters[OF s] show ?case by simp
qed

lemma addFilesToZip_counters:
  assumes "addFilesToZip fl d files w = (w1, added, r)"
  shows "FilesProcessed (stats w1) = FilesProcessed (stats w) + int (length added)"
    and "FilesCompressed (stats w1) = FilesCompressed (stats w) + int (length added)"
proof -
  obtain w' a' z' where f: "fold (addFile fl) files (w, [], []) = (w', a', z')"
    by (cases "fold (addFile fl) files (w, [], [])")
  with assms have "stats w1 = stats w'" and "added = a'"
    by (auto simp: addFilesToZip_def split: if_splits option.splits)
  with fold_addFile_counters[OF f]
  show "FilesProcessed (stats w1) = FilesProcessed (stats w) + int (length added)"
    and "FilesCompressed (stats w1) = FilesCompressed (stats w) + int (length added)"
    by simp_all
qed


lemma verify_effect:
  "fs (snd (verifyZipContainsAll fl zp added w)) = fs w"
  "FilesProcessed (stats (snd (verifyZipContainsAll fl zp added w))) = FilesProcessed (stats w)"
  "FilesCompressed (stats (snd (verifyZipContainsAll fl zp added w))) = FilesCompressed (stats w)"
  by (auto simp: verifyZipContainsAll_def Let_def split: sum.splits)

lemma os_Remove_fst:
  "stats (fst (os_Remove p w)) = stats w"
  "q \<noteq> p \<Longrightarrow> map_of (fs (fst (os_Remove p w))) q = map_of (fs w) q"
  using os_Remove_frame[of p w "fst (os_Remove p w)" "snd (os_Remove p w)"] by simp_all

subsection \<open>Deletion Guard\<close>







subsection \<open>The counters of the statistics\<close>

lemma compressMonthGroup_counters:
  "FilesProcessed (stats (fst (compressMonthGroup cfg fl now gk files w)))
     - FilesCompressed (stats (fst (compressMonthGroup cfg fl now gk files w)))
   = FilesProcessed (stats w) - FilesCompressed (stats w)"
proof (cases "files = []")
  case True
  then show ?thesis by (simp add: compressMonthGroup_def)
next
  case ne: False
  let ?d = "destPathOf cfg files"
  show ?thesis
  proof (cases "os_Create ?d now w")
    case (Inl err)
    with ne show ?thesis by (simp add: compressMonthGroup_def Let_def)
  next
    case (Inr w0)
    have s0: "stats w0 = stats w" using os_Create_frame(1)[OF Inr] .
    show ?thesis
    proof (cases "ToLower (CompressionType cfg) = ''zip''")
      case False
      with ne Inr have "fst (compressMonthGroup cfg fl now gk files w) = fst (os_Remove ?d w0)"
        by (auto simp: compressMonthGroup_def Let_def split: if_splits)
      with os_Remove_fst(1)[of ?d w0] s0 show ?thesis by simp
    next
      case zip: True
      obtain w1 added e where az: "addFilesToZip fl ?d files w0 = (w1, added, e)"
        by (cases "addFilesToZip fl ?d files w0")
      have s1: "FilesProcessed (stats w1) - FilesCompressed (stats w1)
                  = FilesProcessed (stats w) - FilesCompressed (stats w)"
        using addFilesToZip_counters[OF az] s0 by simp
      show ?thesis
      proof (cases e)
        case (Some err)
        with ne Inr zip az
        have "fst (compressMonthGroup cfg fl now gk files w) = fst (os_Remove ?d w1)"
          by (simp add: compressMonthGroup_def Let_def)
        with os_Remove_fst(1)[of ?d w1] s1 show ?thesis by simp
      next
        case None
        show ?thesis
        proof (cases "fileCloseFails fl ?d")
          case True
          with ne Inr zip az None have "fst (compressMonthGroup cfg fl now gk files w) = w1"
            by (simp add: compressMonthGroup_def Let_def)
          with s1 show ?thesis by simp
        next
          case False
          obtain verified w2 where v: "verifyZipContainsAll fl ?d added w1 = (verified, w2)"
            by (cases "verifyZipContainsAll fl ?d added w1")
          have s2: "FilesProcessed (stats w2) = FilesProcessed (stats w1)"
                   "FilesCompressed (stats w2) = FilesCompressed (stats w1)"
            using verify_effect(2,3)[of fl ?d added w1] v by simp_all
          let ?w3 = "if DeleteOriginalAfterCompress cfg
                     then deleteVerified verified (remdups added) w2 else w2"
          have s3: "stats ?w3 = stats w2" by (simp add: deleteVerified_stats)
          from ne Inr zip az None False v
          have "FilesProcessed (stats (fst (compressMonthGroup cfg fl now gk files w)))
                  = FilesProcessed (stats ?w3)
              \<and> FilesCompressed (stats (fst (compressMonthGroup cfg fl now gk files w)))
                  = FilesCompressed (stats ?w3)"
            by (auto simp: compressMonthGroup_def Let_def split: sum.splits)
          with s3 s2 s1 show ?thesis by simp
        qed
      qed
    qed
  qed
qed

lemma groupTask_counters:
  "FilesProcessed (stats (groupTask cfg fl now groups gk w))
     - FilesCompressed (stats (groupTask cfg fl now groups gk w))
   = FilesProcessed (stats w) - FilesCompressed (stats w)"
proof -
  let ?files = "case groups gk of None \<Rightarrow> [] | Some g \<Rightarrow> g"
  obtain w' r where c: "compressMonthGroup cfg fl now gk ?files w = (w', r)"
    by (cases "compressMonthGroup cfg fl now gk ?files w")
  with compressMonthGroup_counters[of cfg fl now gk ?files w]
  have "FilesProcessed (stats w') - FilesCompressed (stats w')
          = FilesProcessed (stats w) - FilesCompressed (stats w)" by simp
  with c show ?thesis by (cases r) (simp_all add: groupTask_def Let_def)
qed

lemma fold_groupTask_counters:
  "FilesProcessed (stats (fold (groupTask cfg fl now groups) keys w))
     - FilesCompressed (stats (fold (groupTask cfg fl now groups) keys w))
   = FilesProcessed (stats w) - FilesCompressed (stats w)"
  by (induction keys arbitrary: w) (simp_all add: groupTask_counters)

lemma os_MkdirAll_stats: "os_MkdirAll p now w = Inr w0 \<Longrightarrow> stats w0 = stats w"
  by (auto simp: os_MkdirAll_def split: if_splits)

text \<open>
  Claim C9. Throughout a grouped-archive run the counters \<^verbatim>\<open>FilesProcessed\<close> and
  \<^verbatim>\<open>FilesCompressed\<close> move together: \<^verbatim>\<open>addFilesToZip\<close> raises each by one per embedded
  file (the length of \<^verbatim>\<open>added\<close>), and a group task, any sequence of group tasks in any
  order, and the whole of \<^verbatim>\<open>processLogs\<close> leave their difference unchanged, so they stay
  equal when they start equal.
\<close>

theorem counters_move_together:
  "FilesProcessed (stats (fst (addFilesToZip fl d files w)))
      = FilesProcessed (stats w) + int (length (fst (snd (addFilesToZip fl d files w))))
   \<and> FilesCompressed (stats (fst (addFilesToZip fl d files w)))
      = FilesCompressed (stats w) + int (length (fst (snd (addFilesToZip fl d files w))))
   \<and> FilesProcessed (stats (fst (compressMonthGroup cfg fl now gk files w)))
       - FilesCompressed (stats (fst (compressMonthGroup cfg fl now gk files w)))
      = FilesProcessed (stats w) - FilesCompressed (stats w)
   \<and> (\<forall>groups keys.
        FilesProcessed (stats (fold (groupTask cfg fl now groups) keys w))
          - FilesCompressed (stats (fold (groupTask cfg fl now groups) keys w))
        = FilesProcessed (stats w) - FilesCompressed (stats w))
   \<and> FilesProcessed (stats (fst (processLogs cfg fl now w)))
       - FilesCompressed (stats (fst (processLogs cfg fl now w)))
      = FilesProcessed (stats w) - FilesCompressed (stats w)"
proof -
  have a: "FilesProcessed (stats (fst (addFilesToZip fl d files w)))
      = FilesProcessed (stats w) + int (length (fst (snd (addFilesToZip fl d files w))))"
    and b: "FilesCompressed (stats (fst (addFilesToZip fl d files w)))
      = FilesCompressed (stats w) + int (length (fst (snd (addFilesToZip fl d files w))))"
    using addFilesToZip_counters[of fl d files w "fst (addFilesToZip fl d files w)"
        "fst (snd (addFilesToZip fl d files w))" "snd (snd (addFilesToZip fl d files w))"]
    by simp_all
  have p: "FilesProcessed (stats (fst (processLogs cfg fl now w)))
       - FilesCompressed (stats (fst (processLogs cfg fl now w)))
      = FilesProcessed (stats w) - FilesCompressed (stats w)"
  proof (cases "os_MkdirAll (DestFolder cfg) now w")
    case (Inl err)
    then show ?thesis by (simp add: processLogs_def)
  next
    case (Inr w0)
    note s0 = os_MkdirAll_stats[OF Inr]
    obtain logFiles e where f: "findLogFiles cfg now w0 = (logFiles, e)"
      by (cases "findLogFiles cfg now w0")
    show ?thesis
    proof (cases "e \<noteq> None \<or> logFiles = []")
      case True
      with Inr f s0 show ?thesis by (cases e) (auto simp: processLogs_def)
    next
      case False
      with Inr f have "fst (processLogs cfg fl now w) =
          fold (groupTask cfg fl now (excludeCurrent cfg now (groupFiles cfg logFiles)))
               (groupKeys cfg logFiles (excludeCurrent cfg now (groupFiles cfg logFiles)))
               (write_stats (\<lambda>s. s\<lparr>GroupCount := int (length
                   (groupKeys cfg logFiles (excludeCurrent cfg now (groupFiles cfg logFiles))))\<rparr>) w0)"
        by (auto simp: processLogs_def Let_def)
      with s0 show ?thesis by (simp add: fold_groupTask_counters)
    qed
  qed
  from a b p show ?thesis
    by (simp add: compressMonthGroup_counters fold_groupTask_counters)
qed

theorem counters_move_together_witness:
  "FilesProcessed (stats ex_small) = FilesCompressed (stats ex_small)
   \<and> FilesProcessed (stats (fst (processLogs ex_cfg ex_faults (ex_day 19800) ex_small))) = 1
   \<and> FilesCompressed (stats (fst (processLogs ex_cfg ex_faults (ex_day 19800) ex_small))) = 1"
proof -
  have h0: "FilesProcessed (stats ex_small) = 0 \<and> FilesCompressed (stats ex_small) = 0"
    by (simp add: ex_small_def ex_stats_def)
  have h1: "FilesProcessed (stats (fst (processLogs ex_cfg ex_faults (ex_day 19800) ex_small))) = 1"
    by code_simp
  from counters_move_together[of ex_faults "[]" "[]" ex_small ex_cfg "ex_day 19800" "[]" ] h0 h1
  show ?thesis by simp
qed

subsection \<open>Retention by age\<close>

lemma retentionFn_step:
  assumes "retentionFn c p (os_Stat w p) w = (w1, r1)"
  shows "((\<exists>info. map_of (fs w) p = Some info \<and> \<not> IsDir info \<and> Before (MTime info) c)
            \<and> os_Remove p w = (w1, r1))
         \<or> (\<not> (\<exists>info. map_of (fs w) p = Some info \<and> \<not> IsDir info \<and> Before (MTime info) c)
            \<and> w1 = w)"
  using assms
  by (auto simp: retentionFn_def os_Stat_def split: option.splits if_splits)

lemma os_Remove_file_gone:
  assumes "os_Remove p w = (w1, None)"
  shows "map_of (fs w1) p = None"
  using assms
  by (auto simp: os_Remove_def delete_conv' split: option.splits if_splits)

lemma walk_retention_frame:
  assumes "walk_list (retentionFn c) (\<lambda>w. w) ps w = (w', r)"
    and "map_of (fs w') q \<noteq> map_of (fs w) q"
  shows "q \<in> set ps \<and> (\<exists>info. map_of (fs w) q = Some info \<and> \<not> IsDir info \<and> Before (MTime info) c)"
  using assms
proof (induction ps arbitrary: w)
  case Nil
  then show ?case by simp
next
  case (Cons p ps)
  obtain w1 r1 where st: "retentionFn c p (os_Stat w p) w = (w1, r1)"
    by (cases "retentionFn c p (os_Stat w p) w")
  have rest: "r1 = None \<Longrightarrow> walk_list (retentionFn c) (\<lambda>w. w) ps w1 = (w', r)"
    using Cons.prems(1) st by simp
  have stop: "r1 \<noteq> None \<Longrightarrow> w' = w1"
    using Cons.prems(1) st by auto
  from retentionFn_step[OF st] show ?case
  proof
    assume a: "(\<exists>info. map_of (fs w) p = Some info \<and> \<not> IsDir info \<and> Before (MTime info) c)
                 \<and> os_Remove p w = (w1, r1)"
    then have fr: "\<And>x. x \<noteq> p \<Longrightarrow> map_of (fs w1) x = map_of (fs w) x"
      using os_Remove_frame(2) by blast
    show ?thesis
    proof (cases "q = p")
      case True
      with a show ?thesis by simp
    next
      case False
      with fr have same: "map_of (fs w1) q = map_of (fs w) q" by simp
      show ?thesis
      proof (cases r1)
        case None
        from Cons.IH[OF rest[OF None]] Cons.prems(2) same show ?thesis by simp
      next
        case (Some err)
        with stop same Cons.prems(2) show ?thesis by simp
      qed
    qed
  next
    assume b: "\<not> (\<exists>info. map_of (fs w) p = Some info \<and> \<not> IsDir info \<and> Before (MTime info) c)
                 \<and> w1 = w"
    show ?thesis
    proof (cases r1)
      case None
      from Cons.IH[OF rest[OF None]] Cons.prems(2) b show ?thesis by simp
    next
      case (Some err)
      with stop b Cons.prems(2) show ?thesis by simp
    qed
  qed
qed

lemma walk_retention_covers:
  assumes "walk_list (retentionFn c) (\<lambda>w. w) ps w = (w', None)"
    and "q \<in> set ps"
    and "\<exists>info. map_of (fs w) q = Some info \<and> \<not> IsDir info \<and> Before (MTime info) c"
  shows "map_of (fs w') q = None"
  using assms
proof (induction ps arbitrary: w)
  case Nil
  then show ?case by simp
next
  case (Cons p ps)
  obtain w1 r1 where st: "retentionFn c p (os_Stat w p) w = (w1, r1)"
    by (cases "retentionFn c p (os_Stat w p) w")
  with Cons.prems(1) have r1: "r1 = None" by (cases r1) auto
  with Cons.prems(1) st have rest: "walk_list (retentionFn c) (\<lambda>w. w) ps w1 = (w', None)"
    by simp
  show ?case
  proof (cases "q = p")
    case True
    with retentionFn_step[OF st] Cons.prems(3) r1 have "os_Remove p w = (w1, None)" by blast
    then have gone: "map_of (fs w1) p = None" by (rule os_Remove_file_gone)
    show ?thesis
    proof (rule ccontr)
      assume "map_of (fs w') q \<noteq> None"
      with gone True have "map_of (fs w') p \<noteq> map_of (fs w1) p" by simp
      from walk_retention_frame[OF rest this] gone show False by simp
    qed
  next
    case False
    with Cons.prems(2) have qin: "q \<in> set ps" by simp
    have "map_of (fs w1) q = map_of (fs w) q"
      using retentionFn_step[OF st] os_Remove_frame(2)[of p w w1 r1 q] False by auto
    with Cons.prems(3) have "\<exists>info. map_of (fs w1) q = Some info \<and> \<not> IsDir info \<and> Before (MTime info) c"
      by simp
    from Cons.IH[OF rest qin this] show ?thesis .
  qed
qed



subsection \<open>Retention by count\<close>

lemma listing_iff: "(p, i) \<in> set (listing w) \<longleftrightarrow> map_of (fs w) p = Some i"
proof -
  have "(p, i) \<in> set (AList.clearjunk (fs w)) \<longleftrightarrow> map_of (AList.clearjunk (fs w)) p = Some i"
    using map_of_eq_Some_iff[OF distinct_clearjunk, of "fs w" p i] by simp
  then show ?thesis by (simp add: listing_def map_of_clearjunk)
qed

lemma Join_butlast_last: "p \<noteq> [] \<Longrightarrow> Join (butlast p) (last p) = p"
  by (simp add: Join_def)

lemma Join_parts [simp]: "Join d name \<noteq> []" "butlast (Join d name) = d" "last (Join d name) = name"
  by (simp_all add: Join_def)

lemma os_ReadDir_iff:
  assumes "os_ReadDir w d = Inr entries"
  shows "(name, isdir) \<in> set entries \<longleftrightarrow>
           (\<exists>info. map_of (fs w) (Join d name) = Some info \<and> IsDir info = isdir)"
proof
  from assms have e: "entries = map (\<lambda>(p, i). (last p, IsDir i))
                    (filter (\<lambda>(p, i). p \<noteq> [] \<and> butlast p = d) (listing w))"
    by (auto simp: os_ReadDir_def split: sum.splits if_splits)
  {
    assume "(name, isdir) \<in> set entries"
    then obtain p i where m: "(p, i) \<in> set (listing w)" "p \<noteq> []" "butlast p = d"
        "name = last p" "isdir = IsDir i"
      unfolding e by auto
    from m(2,3,4) have "Join d name = p" using Join_butlast_last by blast
    with m(1,5) show "\<exists>info. map_of (fs w) (Join d name) = Some info \<and> IsDir info = isdir"
      by (simp add: listing_iff)
  }
  {
    assume "\<exists>info. map_of (fs w) (Join d name) = Some info \<and> IsDir info = isdir"
    then obtain info where i: "map_of (fs w) (Join d name) = Some info" "IsDir info = isdir"
      by blast
    then have "(Join d name, info) \<in> set (listing w)" by (simp add: listing_iff)
    then have "(last (Join d name), IsDir info) \<in> set entries"
      unfolding e by force
    with i show "(name, isdir) \<in> set entries" by simp
  }
qed

lemma archiveFiles_mem:
  "(q, t) \<in> set (archiveFiles cfg w entries) \<longleftrightarrow>
     (\<exists>name fi. (name, False) \<in> set entries
        \<and> (HasSuffix (ToLower name) ''.zip'' \<or> HasSuffix (ToLower name) ''.gz'')
        \<and> os_Stat w (Join (DestFolder cfg) name) = Inr fi
        \<and> q = Join (DestFolder cfg) name \<and> t = MTime fi)"
proof (induction entries)
  case Nil
  then show ?case by (simp add: archiveFiles_def)
next
  case (Cons e entries)
  obtain name isdir where e: "e = (name, isdir)" by (cases e)
  have step: "archiveFiles cfg w (e # entries) =
      (if isdir then []
       else if \<not> HasSuffix (ToLower name) ''.zip'' \<and> \<not> HasSuffix (ToLower name) ''.gz''
       then []
       else (case os_Stat w (Join (DestFolder cfg) name) of
               Inl err \<Rightarrow> [] | Inr fi \<Rightarrow> [(Join (DestFolder cfg) name, MTime fi)]))
      @ archiveFiles cfg w entries"
    by (simp add: archiveFiles_def e Let_def)
  show ?case
    unfolding step using Cons.IH
    by (cases "os_Stat w (Join (DestFolder cfg) name)") (auto simp: e)
qed

lemma archiveFiles_iff:
  assumes "os_ReadDir w (DestFolder cfg) = Inr entries"
  shows "q \<in> fst ` set (archiveFiles cfg w entries) \<longleftrightarrow>
           (\<exists>name info. q = Join (DestFolder cfg) name
              \<and> map_of (fs w) q = Some info \<and> \<not> IsDir info
              \<and> (HasSuffix (ToLower name) ''.zip'' \<or> HasSuffix (ToLower name) ''.gz''))"
proof
  assume "q \<in> fst ` set (archiveFiles cfg w entries)"
  then obtain t where "(q, t) \<in> set (archiveFiles cfg w entries)" by force
  then obtain name fi where m: "(name, False) \<in> set entries"
      "HasSuffix (ToLower name) ''.zip'' \<or> HasSuffix (ToLower name) ''.gz''"
      "q = Join (DestFolder cfg) name"
    unfolding archiveFiles_mem by blast
  from os_ReadDir_iff[OF assms, of name False] m(1)
  obtain info where "map_of (fs w) (Join (DestFolder cfg) name) = Some info" "\<not> IsDir info"
    by auto
  with m show "\<exists>name info. q = Join (DestFolder cfg) name
              \<and> map_of (fs w) q = Some info \<and> \<not> IsDir info
              \<and> (HasSuffix (ToLower name) ''.zip'' \<or> HasSuffix (ToLower name) ''.gz'')"
    by blast
next
  assume "\<exists>name info. q = Join (DestFolder cfg) name
              \<and> map_of (fs w) q = Some info \<and> \<not> IsDir info
              \<and> (HasSuffix (ToLower name) ''.zip'' \<or> HasSuffix (ToLower name) ''.gz'')"
  then obtain name info where m: "q = Join (DestFolder cfg) name" "map_of (fs w) q = Some info"
     "\<not> IsDir info" "HasSuffix (ToLower name) ''.zip'' \<or> HasSuffix (ToLower name) ''.gz''"
    by blast
  then have en: "(name, False) \<in> set entries"
    using os_ReadDir_iff[OF assms, of name False] by simp
  from m have st: "os_Stat w (Join (DestFolder cfg) name) = Inr info"
    by (simp add: os_Stat_def)
  from en m st have "(q, MTime info) \<in> set (archiveFiles cfg w entries)"
    unfolding archiveFiles_mem by blast
  then show "q \<in> fst ` set (archiveFiles cfg w entries)" by force
qed

lemma removeBeyond_fold_frame:
  "map_of (fs (fold (\<lambda>(idx, f) w. if int idx \<ge> n then fst (os_Remove (fst f) w) else w)
                 (enumerate k files) w)) q \<noteq> map_of (fs w) q
   \<Longrightarrow> q \<in> fst ` set files"
proof (induction files arbitrary: k w)
  case Nil
  then show ?case by simp
next
  case (Cons f files)
  let ?w1 = "if int k \<ge> n then fst (os_Remove (fst f) w) else w"
  from Cons.prems have ch: "map_of (fs (fold (\<lambda>(idx, f) w. if int idx \<ge> n
             then fst (os_Remove (fst f) w) else w) (enumerate (Suc k) files) ?w1)) q
         \<noteq> map_of (fs w) q"
    by simp
  show ?case
  proof (cases "map_of (fs ?w1) q = map_of (fs w) q")
    case True
    with ch Cons.IH[of "Suc k" ?w1] show ?thesis by auto
  next
    case False
    then have "q = fst f" using os_Remove_fst(2)[of q "fst f" w] by (auto split: if_splits)
    then show ?thesis by simp
  qed
qed

lemma removeBeyond_frame:
  "map_of (fs (removeBeyond n files w)) q \<noteq> map_of (fs w) q \<Longrightarrow> q \<in> fst ` set files"
  unfolding removeBeyond_def by (rule removeBeyond_fold_frame)



lemma os_Remove_at:
  assumes "map_of (fs w) q = Some info" and "\<not> IsDir info"
  shows "map_of (fs (fst (os_Remove q w))) q
           = (if locks info > 0 then Some (info\<lparr>locks := locks info - 1\<rparr>) else None)"
  using assms by (simp add: os_Remove_def update_conv' delete_conv')

lemma removeBeyond_fold_effect:
  assumes "distinct (map fst files)" and "i < length files"
    and "map_of (fs w) (fst (files ! i)) = Some info" and "\<not> IsDir info"
  shows "map_of (fs (fold (\<lambda>(idx, f) w. if int idx \<ge> n then fst (os_Remove (fst f) w) else w)
                       (enumerate k files) w)) (fst (files ! i))
           = (if int (k + i) \<ge> n
              then (if locks info > 0 then Some (info\<lparr>locks := locks info - 1\<rparr>) else None)
              else Some info)"
  using assms
proof (induction files arbitrary: k w i)
  case Nil
  then show ?case by simp
next
  case (Cons f files)
  let ?step = "\<lambda>(idx, f) w. if int idx \<ge> n then fst (os_Remove (fst f) w) else w"
  let ?w1 = "if int k \<ge> n then fst (os_Remove (fst f) w) else w"
  have unfold: "fold ?step (enumerate k (f # files)) w = fold ?step (enumerate (Suc k) files) ?w1"
    by simp
  show ?case
  proof (cases i)
    case 0
    then have q: "(f # files) ! i = f" by simp
    from Cons.prems(1) have "fst f \<notin> fst ` set files" by auto
    then have same: "map_of (fs (fold ?step (enumerate (Suc k) files) ?w1)) (fst f)
                       = map_of (fs ?w1) (fst f)"
      using removeBeyond_fold_frame[of n "Suc k" files ?w1 "fst f"] by blast
    from Cons.prems(3,4) q have "map_of (fs ?w1) (fst f)
         = (if int k \<ge> n
              then (if locks info > 0 then Some (info\<lparr>locks := locks info - 1\<rparr>) else None)
              else Some info)"
      using os_Remove_at[of w "fst f" info] by simp
    with same unfold q 0 show ?thesis by simp
  next
    case (Suc j)
    then have q: "(f # files) ! i = files ! j" and jl: "j < length files"
      using Cons.prems(2) by simp_all
    from jl have "fst (files ! j) \<in> fst ` set files" by (metis image_eqI nth_mem)
    moreover from Cons.prems(1) have "fst f \<notin> fst ` set files" by auto
    ultimately have ne: "fst (files ! j) \<noteq> fst f" by metis
    have "map_of (fs ?w1) (fst (files ! j)) = map_of (fs w) (fst (files ! j))"
      using os_Remove_fst(2)[OF ne, of w] by simp
    with Cons.prems(3) q have i1: "map_of (fs ?w1) (fst (files ! j)) = Some info" by simp
    from Cons.prems(1) have d: "distinct (map fst files)" by simp
    from Cons.IH[OF d jl i1 Cons.prems(4), of "Suc k"] unfold q Suc show ?thesis by simp
  qed
qed

lemma listing_distinct: "distinct (map fst (listing w))"
proof -
  have d: "distinct (map fst (AList.clearjunk (fs w)))" by (rule distinct_clearjunk)
  then have "distinct (AList.clearjunk (fs w))" and "inj_on fst (set (AList.clearjunk (fs w)))"
    by (simp_all add: distinct_map)
  then show ?thesis by (simp add: listing_def distinct_map)
qed

lemma os_ReadDir_distinct:
  assumes "os_ReadDir w d = Inr entries"
  shows "distinct (map fst entries)"
proof -
  let ?sel = "filter (\<lambda>(p, i). p \<noteq> [] \<and> butlast p = d) (listing w)"
  from assms have e: "entries = map (\<lambda>(p, i). (last p, IsDir i)) ?sel"
    by (auto simp: os_ReadDir_def split: sum.splits if_splits)
  have m: "map fst entries = map last (map fst ?sel)"
    unfolding e by (simp add: case_prod_unfold comp_def)
  have d: "distinct (map fst ?sel)"
    using listing_distinct[of w] by (rule distinct_map_filter)
  have inj: "inj_on last (set (map fst ?sel))"
  proof (rule inj_onI)
    fix p q assume "p \<in> set (map fst ?sel)" "q \<in> set (map fst ?sel)" "last p = last q"
    then have "p \<noteq> []" "butlast p = d" "q \<noteq> []" "butlast q = d" "last p = last q"
      by auto
    then show "p = q" by (metis append_butlast_last_id)
  qed
  have "distinct (map last (map fst ?sel))"
  proof (rule iffD2[OF distinct_map], rule conjI)
    show "distinct (map fst ?sel)" by (rule d)
    show "inj_on last (set (map fst ?sel))" by (rule inj)
  qed
  then show ?thesis by (simp only: m)
qed

lemma archiveFiles_Cons:
  "archiveFiles cfg w ((name, isdir) # entries) =
      (if isdir then []
       else if \<not> HasSuffix (ToLower name) ''.zip'' \<and> \<not> HasSuffix (ToLower name) ''.gz''
       then []
       else (case os_Stat w (Join (DestFolder cfg) name) of
               Inl err \<Rightarrow> [] | Inr fi \<Rightarrow> [(Join (DestFolder cfg) name, MTime fi)]))
      @ archiveFiles cfg w entries"
  by (simp add: archiveFiles_def Let_def)

lemma archiveFiles_distinct:
  "distinct (map fst entries) \<Longrightarrow> distinct (map fst (archiveFiles cfg w entries))"
proof (induction entries)
  case Nil
  then show ?case by (simp add: archiveFiles_def)
next
  case (Cons e entries)
  obtain name isdir where e: "e = (name, isdir)" by (cases e)
  from Cons.prems e have nn: "name \<notin> fst ` set entries" and d: "distinct (map fst entries)"
    by auto
  have notin: "Join (DestFolder cfg) name \<notin> fst ` set (archiveFiles cfg w entries)"
  proof
    assume "Join (DestFolder cfg) name \<in> fst ` set (archiveFiles cfg w entries)"
    then obtain t where "(Join (DestFolder cfg) name, t) \<in> set (archiveFiles cfg w entries)"
      by force
    then obtain name' where "(name', False) \<in> set entries"
        "Join (DestFolder cfg) name = Join (DestFolder cfg) name'"
      unfolding archiveFiles_mem by blast
    then have "name \<in> fst ` set entries" by (force simp: Join_def)
    with nn show False by simp
  qed
  from Cons.IH[OF d] notin show ?case
    unfolding e archiveFiles_Cons
    by (cases "os_Stat w (Join (DestFolder cfg) name)") auto
qed

lemma archiveFiles_candidates:
  assumes "os_ReadDir w (DestFolder cfg) = Inr entries"
  shows "(q, t) \<in> set (archiveFiles cfg w entries) \<longleftrightarrow>
           (\<exists>name info. q = Join (DestFolder cfg) name
              \<and> map_of (fs w) q = Some info \<and> \<not> IsDir info
              \<and> (HasSuffix (ToLower name) ''.zip'' \<or> HasSuffix (ToLower name) ''.gz'')
              \<and> t = MTime info)"
proof
  assume "(q, t) \<in> set (archiveFiles cfg w entries)"
  then obtain name fi where m: "(name, False) \<in> set entries"
      "HasSuffix (ToLower name) ''.zip'' \<or> HasSuffix (ToLower name) ''.gz''"
      "os_Stat w (Join (DestFolder cfg) name) = Inr fi"
      "q = Join (DestFolder cfg) name" "t = MTime fi"
    unfolding archiveFiles_mem by blast
  from os_ReadDir_iff[OF assms, of name False] m(1)
  obtain info where i: "map_of (fs w) (Join (DestFolder cfg) name) = Some info" "\<not> IsDir info"
    by auto
  with m(3) have "fi = info" by (simp add: os_Stat_def)
  with m i show "\<exists>name info. q = Join (DestFolder cfg) name
              \<and> map_of (fs w) q = Some info \<and> \<not> IsDir info
              \<and> (HasSuffix (ToLower name) ''.zip'' \<or> HasSuffix (ToLower name) ''.gz'')
              \<and> t = MTime info"
    by blast
next
  assume "\<exists>name info. q = Join (DestFolder cfg) name
              \<and> map_of (fs w) q = Some info \<and> \<not> IsDir info
              \<and> (HasSuffix (ToLower name) ''.zip'' \<or> HasSuffix (ToLower name) ''.gz'')
              \<and> t = MTime info"
  then obtain name info where m: "q = Join (DestFolder cfg) name" "map_of (fs w) q = Some info"
     "\<not> IsDir info" "HasSuffix (ToLower name) ''.zip'' \<or> HasSuffix (ToLower name) ''.gz''"
     "t = MTime info"
    by blast
  then have en: "(name, False) \<in> set entries"
    using os_ReadDir_iff[OF assms, of name False] by simp
  from m have st: "os_Stat w (Join (DestFolder cfg) name) = Inr info"
    by (simp add: os_Stat_def)
  from en m st show "(q, t) \<in> set (archiveFiles cfg w entries)"
    unfolding archiveFiles_mem by blast
qed

text \<open>What the keep-last-N branch does to the file system, said without its loops: the
  archives of the folder, newest first, the first N left alone, a removal tried on each
  of the others.\<close>

lemma keepLastN_ranked:
  assumes run: "keepLastN cfg w = (w', r)"
    and rd: "os_ReadDir w (DestFolder cfg) = Inr entries"
  shows "r = None \<and> (\<exists>ranked.
           distinct (map fst ranked)
           \<and> (\<forall>q t. (q, t) \<in> set ranked \<longleftrightarrow>
                 (\<exists>name info. q = Join (DestFolder cfg) name
                    \<and> map_of (fs w) q = Some info \<and> \<not> IsDir info
                    \<and> (HasSuffix (ToLower name) ''.zip'' \<or> HasSuffix (ToLower name) ''.gz'')
                    \<and> t = MTime info))
           \<and> (\<forall>i j. i \<le> j \<and> j < length ranked \<longrightarrow> snd (ranked ! j) \<le> snd (ranked ! i))
           \<and> (\<forall>i info. i < length ranked \<and> map_of (fs w) (fst (ranked ! i)) = Some info \<longrightarrow>
                 map_of (fs w') (fst (ranked ! i))
                   = (if int i < KeepLastNArchives cfg then Some info
                      else if locks info > 0 then Some (info\<lparr>locks := locks info - 1\<rparr>)
                      else None))
           \<and> (\<forall>q. q \<notin> fst ` set ranked \<longrightarrow> map_of (fs w') q = map_of (fs w) q))"
proof -
  let ?files = "archiveFiles cfg w entries"
  let ?ranked = "sort_key (\<lambda>f. - snd f) ?files"
  from run rd have r: "r = None" and w': "w' = removeBeyond (KeepLastNArchives cfg) ?ranked w"
    by (simp_all add: keepLastN_def Let_def)
  have dfiles: "distinct (map fst ?files)"
    using archiveFiles_distinct[OF os_ReadDir_distinct[OF rd]] .
  then have d: "distinct (map fst ?ranked)" by (simp add: distinct_map)
  have s: "(q, t) \<in> set ?ranked \<longleftrightarrow>
                 (\<exists>name info. q = Join (DestFolder cfg) name
                    \<and> map_of (fs w) q = Some info \<and> \<not> IsDir info
                    \<and> (HasSuffix (ToLower name) ''.zip'' \<or> HasSuffix (ToLower name) ''.gz'')
                    \<and> t = MTime info)" for q t
    using archiveFiles_candidates[OF rd, of q t] by simp
  have "sorted (map (\<lambda>f. - snd f) ?ranked)" by (rule sorted_sort_key)
  then have o: "snd (?ranked ! j) \<le> snd (?ranked ! i)" if "i \<le> j" "j < length ?ranked" for i j
    using that sorted_iff_nth_mono[of "map (\<lambda>f. - snd f) ?ranked"] by fastforce
  have e: "map_of (fs w') (fst (?ranked ! i))
                   = (if int i < KeepLastNArchives cfg then Some info
                      else if locks info > 0 then Some (info\<lparr>locks := locks info - 1\<rparr>)
                      else None)"
    if il: "i < length ?ranked" and mi: "map_of (fs w) (fst (?ranked ! i)) = Some info" for i info
  proof -
    obtain q t where qt: "?ranked ! i = (q, t)" by (cases "?ranked ! i")
    with il have "(q, t) \<in> set ?ranked" by (metis nth_mem)
    then obtain info' where "map_of (fs w) q = Some info'" "\<not> IsDir info'"
      unfolding s by blast
    with mi qt have nd: "\<not> IsDir info" by simp
    from removeBeyond_fold_effect[OF d il mi nd, of "KeepLastNArchives cfg" 0]
    show ?thesis unfolding w' removeBeyond_def by auto
  qed
  have f: "map_of (fs w') q = map_of (fs w) q" if "q \<notin> fst ` set ?ranked" for q
    using that removeBeyond_frame[of "KeepLastNArchives cfg" ?ranked w q] unfolding w' by blast
  from d s o e f have "distinct (map fst ?ranked)
           \<and> (\<forall>q t. (q, t) \<in> set ?ranked \<longleftrightarrow>
                 (\<exists>name info. q = Join (DestFolder cfg) name
                    \<and> map_of (fs w) q = Some info \<and> \<not> IsDir info
                    \<and> (HasSuffix (ToLower name) ''.zip'' \<or> HasSuffix (ToLower name) ''.gz'')
                    \<and> t = MTime info))
           \<and> (\<forall>i j. i \<le> j \<and> j < length ?ranked \<longrightarrow> snd (?ranked ! j) \<le> snd (?ranked ! i))
           \<and> (\<forall>i info. i < length ?ranked \<and> map_of (fs w) (fst (?ranked ! i)) = Some info \<longrightarrow>
                 map_of (fs w') (fst (?ranked ! i))
                   = (if int i < KeepLastNArchives cfg then Some info
                      else if locks info > 0 then Some (info\<lparr>locks := locks info - 1\<rparr>)
                      else None))
           \<and> (\<forall>q. q \<notin> fst ` set ?ranked \<longrightarrow> map_of (fs w') q = map_of (fs w) q)"
    by (intro conjI allI impI) blast+
  then show ?thesis using r by blast
qed

lemma ageCutoff_effect:
  assumes w: "ageCutoff cfg now w = (w', r)"
  shows "(\<forall>p. map_of (fs w') p \<noteq> map_of (fs w) p \<longrightarrow>
            p \<in> set (walk_paths w (DestFolder cfg))
            \<and> (\<exists>info. map_of (fs w) p = Some info \<and> \<not> IsDir info
                  \<and> MTime info < AddDate_days now (- RetentionDays cfg)))
       \<and> (r = None \<longrightarrow>
            (\<forall>p \<in> set (walk_paths w (DestFolder cfg)). \<forall>info.
               map_of (fs w) p = Some info \<and> \<not> IsDir info
                 \<and> MTime info < AddDate_days now (- RetentionDays cfg) \<longrightarrow>
               map_of (fs w') p = None))"
proof -
  let ?c = "AddDate_days now (- RetentionDays cfg)"
  let ?dest = "DestFolder cfg"
  from w have fw: "filepath_Walk ?dest (retentionFn ?c) (\<lambda>w. w) w = (w', r)"
    by (simp add: ageCutoff_def Let_def)
  have A: "p \<in> set (walk_paths w ?dest)
            \<and> (\<exists>info. map_of (fs w) p = Some info \<and> \<not> IsDir info \<and> MTime info < ?c)"
    if ch: "map_of (fs w') p \<noteq> map_of (fs w) p" for p
  proof (cases "os_Stat w ?dest")
    case (Inl err)
    with fw have "w' = w" by (simp add: filepath_Walk_def retentionFn_def)
    with ch show ?thesis by simp
  next
    case (Inr info)
    with fw have "walk_list (retentionFn ?c) (\<lambda>w. w) (walk_paths w ?dest) w = (w', r)"
      by (simp add: filepath_Walk_def)
    from walk_retention_frame[OF this ch] show ?thesis by (simp add: Before_def)
  qed
  have B: "map_of (fs w') p = None"
    if "r = None" "p \<in> set (walk_paths w ?dest)" "map_of (fs w) p = Some info"
       "\<not> IsDir info" "MTime info < ?c" for p info
  proof (cases "os_Stat w ?dest")
    case (Inl err)
    with fw that(1) show ?thesis by (simp add: filepath_Walk_def retentionFn_def)
  next
    case (Inr i)
    with fw that(1) have "walk_list (retentionFn ?c) (\<lambda>w. w) (walk_paths w ?dest) w = (w', None)"
      by (simp add: filepath_Walk_def)
    from walk_retention_covers[OF this that(2)] that(3,4,5) show ?thesis
      by (simp add: Before_def)
  qed
  have c1: "\<forall>p. map_of (fs w') p \<noteq> map_of (fs w) p \<longrightarrow>
            p \<in> set (walk_paths w ?dest)
            \<and> (\<exists>info. map_of (fs w) p = Some info \<and> \<not> IsDir info \<and> MTime info < ?c)"
    using A by blast
  have c3: "r = None \<longrightarrow>
            (\<forall>p \<in> set (walk_paths w ?dest). \<forall>info.
               map_of (fs w) p = Some info \<and> \<not> IsDir info \<and> MTime info < ?c \<longrightarrow>
               map_of (fs w') p = None)"
    using B by blast
  from c1 c3 show ?thesis by (rule conjI)
qed

lemma keepLastN_ReadDir_fails:
  "os_ReadDir w (DestFolder cfg) = Inl err \<Longrightarrow> keepLastN cfg w = (w, Some err)"
  by (simp add: keepLastN_def)

text \<open>In a list that is ordered newest first, an entry that has a newer one in the list
  is not the first.\<close>

lemma not_first_if_newer:
  assumes o: "\<forall>i j. i \<le> j \<and> j < length ranked \<longrightarrow> snd (ranked ! j) \<le> snd (ranked ! i)"
    and m: "(q, t) \<in> set ranked" and m': "(q', t') \<in> set ranked" and lt: "(t :: int) < t'"
  obtains i where "i < length ranked" "ranked ! i = (q, t)" "1 \<le> i"
proof -
  from m obtain i where i: "i < length ranked" "ranked ! i = (q, t)"
    by (auto simp: in_set_conv_nth)
  from m' obtain j where j: "j < length ranked" "ranked ! j = (q', t')"
    by (auto simp: in_set_conv_nth)
  have "i \<noteq> 0"
  proof
    assume "i = 0"
    with o j(1) have "snd (ranked ! j) \<le> snd (ranked ! i)" by simp
    with i(2) j(2) lt show False by simp
  qed
  with i that show ?thesis by simp
qed

subsection \<open>Retention policy selection\<close>

text \<open>
  Claim C6. Retention policy selection, as it shows on the file system. With
  \<^verbatim>\<open>KeepLastNArchives\<close> above zero the keep-last-N policy runs: if the destination folder
  cannot be listed, nothing changes and the error is returned; otherwise no error is
  returned, and the candidates stand in a list, newest first, whose first N entries are
  left as they were, while a removal is attempted on every later one (the file goes away,
  or, held by another process, stays with one attempt fewer to fail), and no other path
  changes, however old the file there is. The age cutoff is not evaluated: the outcome is
  the same for every value of \<^verbatim>\<open>RetentionDays\<close> and every current time, which only the
  age cutoff reads. With \<^verbatim>\<open>KeepLastNArchives\<close> at most zero and \<^verbatim>\<open>RetentionDays\<close>
  above zero the age cutoff runs: only files that the walk of the destination folder
  reaches and that are strictly older than the cutoff change, and a sweep that returns no
  error has removed every such file. With both at most zero nothing changes and no error
  is returned.
\<close>

theorem retention_policy_selection:
  assumes run: "cleanupOldCompressedLogs cfg now w = (w', r)"
  shows "(KeepLastNArchives cfg > 0 \<longrightarrow>
           (\<forall>err. os_ReadDir w (DestFolder cfg) = Inl err \<longrightarrow> w' = w \<and> r = Some err)
         \<and> (\<forall>entries. os_ReadDir w (DestFolder cfg) = Inr entries \<longrightarrow>
              r = None \<and> (\<exists>ranked.
                distinct (map fst ranked)
                \<and> (\<forall>q t. (q, t) \<in> set ranked \<longleftrightarrow>
                      (\<exists>name info. q = Join (DestFolder cfg) name
                         \<and> map_of (fs w) q = Some info \<and> \<not> IsDir info
                         \<and> (HasSuffix (ToLower name) ''.zip'' \<or> HasSuffix (ToLower name) ''.gz'')
                         \<and> t = MTime info))
                \<and> (\<forall>i j. i \<le> j \<and> j < length ranked \<longrightarrow> snd (ranked ! j) \<le> snd (ranked ! i))
                \<and> (\<forall>i info. i < length ranked \<and> map_of (fs w) (fst (ranked ! i)) = Some info \<longrightarrow>
                      map_of (fs w') (fst (ranked ! i))
                        = (if int i < KeepLastNArchives cfg then Some info
                           else if locks info > 0 then Some (info\<lparr>locks := locks info - 1\<rparr>)
                           else None))
                \<and> (\<forall>q. q \<notin> fst ` set ranked \<longrightarrow> map_of (fs w') q = map_of (fs w) q)))
         \<and> (\<forall>d now'. cleanupOldCompressedLogs (cfg\<lparr>RetentionDays := d\<rparr>) now' w = (w', r)))
       \<and> (KeepLastNArchives cfg \<le> 0 \<and> RetentionDays cfg > 0 \<longrightarrow>
           (\<forall>p. map_of (fs w') p \<noteq> map_of (fs w) p \<longrightarrow>
              p \<in> set (walk_paths w (DestFolder cfg))
              \<and> (\<exists>info. map_of (fs w) p = Some info \<and> \<not> IsDir info
                    \<and> MTime info < AddDate_days now (- RetentionDays cfg)))
         \<and> (r = None \<longrightarrow>
              (\<forall>p \<in> set (walk_paths w (DestFolder cfg)). \<forall>info.
                 map_of (fs w) p = Some info \<and> \<not> IsDir info
                   \<and> MTime info < AddDate_days now (- RetentionDays cfg) \<longrightarrow>
                 map_of (fs w') p = None)))
       \<and> (KeepLastNArchives cfg \<le> 0 \<and> RetentionDays cfg \<le> 0 \<longrightarrow> w' = w \<and> r = None)"
proof (intro conjI impI)
  assume n: "KeepLastNArchives cfg > 0"
  with run have k: "keepLastN cfg w = (w', r)" by (simp add: cleanupOldCompressedLogs_def)
  show "\<forall>err. os_ReadDir w (DestFolder cfg) = Inl err \<longrightarrow> w' = w \<and> r = Some err"
    using k keepLastN_ReadDir_fails[of w cfg] by auto
  show "\<forall>entries. os_ReadDir w (DestFolder cfg) = Inr entries \<longrightarrow>
              r = None \<and> (\<exists>ranked.
                distinct (map fst ranked)
                \<and> (\<forall>q t. (q, t) \<in> set ranked \<longleftrightarrow>
                      (\<exists>name info. q = Join (DestFolder cfg) name
                         \<and> map_of (fs w) q = Some info \<and> \<not> IsDir info
                         \<and> (HasSuffix (ToLower name) ''.zip'' \<or> HasSuffix (ToLower name) ''.gz'')
                         \<and> t = MTime info))
                \<and> (\<forall>i j. i \<le> j \<and> j < length ranked \<longrightarrow> snd (ranked ! j) \<le> snd (ranked ! i))
                \<and> (\<forall>i info. i < length ranked \<and> map_of (fs w) (fst (ranked ! i)) = Some info \<longrightarrow>
                      map_of (fs w') (fst (ranked ! i))
                        = (if int i < KeepLastNArchives cfg then Some info
                           else if locks info > 0 then Some (info\<lparr>locks := locks info - 1\<rparr>)
                           else None))
                \<and> (\<forall>q. q \<notin> fst ` set ranked \<longrightarrow> map_of (fs w') q = map_of (fs w) q))"
    using keepLastN_ranked[OF k] by blast
  show "\<forall>d now'. cleanupOldCompressedLogs (cfg\<lparr>RetentionDays := d\<rparr>) now' w = (w', r)"
    using n k by (simp add: cleanupOldCompressedLogs_def keepLastN_RetentionDays)
next
  assume a: "KeepLastNArchives cfg \<le> 0 \<and> RetentionDays cfg > 0"
  with run have g: "ageCutoff cfg now w = (w', r)" by (simp add: cleanupOldCompressedLogs_def)
  from ageCutoff_effect[OF g]
  show "\<forall>p. map_of (fs w') p \<noteq> map_of (fs w) p \<longrightarrow>
              p \<in> set (walk_paths w (DestFolder cfg))
              \<and> (\<exists>info. map_of (fs w) p = Some info \<and> \<not> IsDir info
                    \<and> MTime info < AddDate_days now (- RetentionDays cfg))"
    by (rule conjunct1)
  from ageCutoff_effect[OF g]
  show "r = None \<Longrightarrow>
              \<forall>p \<in> set (walk_paths w (DestFolder cfg)). \<forall>info.
                 map_of (fs w) p = Some info \<and> \<not> IsDir info
                   \<and> MTime info < AddDate_days now (- RetentionDays cfg) \<longrightarrow>
                 map_of (fs w') p = None"
    by blast
next
  assume "KeepLastNArchives cfg \<le> 0 \<and> RetentionDays cfg \<le> 0"
  with run show "w' = w" and "r = None" by (simp_all add: cleanupOldCompressedLogs_def)
qed

theorem retention_policy_selection_witness:
  "KeepLastNArchives (ex_cfg\<lparr>KeepLastNArchives := 1\<rparr>) > 0
   \<and> os_ReadDir ex_keep_world (DestFolder (ex_cfg\<lparr>KeepLastNArchives := 1\<rparr>))
        = Inr [(''a.zip'', False), (''b.ZIP'', False), (''c.gz'', False),
               (''notes.txt'', False), (''sub.zip'', True)]
   \<and> snd (cleanupOldCompressedLogs (ex_cfg\<lparr>KeepLastNArchives := 1\<rparr>) (ex_day 19800)
            ex_keep_world) = None
   \<and> map_of (fs (fst (cleanupOldCompressedLogs (ex_cfg\<lparr>KeepLastNArchives := 1\<rparr>)
                        (ex_day 19800) ex_keep_world))) [''arch'', ''a.zip''] = None
   \<and> MTime (ex_file 5 (ex_day 19000))
        < AddDate_days (ex_day 19800) (- RetentionDays (ex_cfg\<lparr>KeepLastNArchives := 1\<rparr>))
   \<and> map_of (fs (fst (cleanupOldCompressedLogs (ex_cfg\<lparr>KeepLastNArchives := 1\<rparr>)
                        (ex_day 19800) ex_keep_world))) [''arch'', ''notes.txt'']
        = Some (ex_file 5 (ex_day 19000))
   \<and> KeepLastNArchives ex_cfg \<le> 0 \<and> RetentionDays ex_cfg > 0
   \<and> snd (cleanupOldCompressedLogs ex_cfg (ex_day 19800) ex_retention_world) = None
   \<and> map_of (fs (fst (cleanupOldCompressedLogs ex_cfg (ex_day 19800) ex_retention_world)))
        [''arch'', ''old.zip''] = None
   \<and> map_of (fs (fst (cleanupOldCompressedLogs ex_cfg (ex_day 19800) ex_retention_world)))
        [''arch'', ''new.zip''] = Some (ex_file 60 (ex_day 19790))
   \<and> KeepLastNArchives (ex_cfg\<lparr>RetentionDays := 0\<rparr>) \<le> 0
   \<and> RetentionDays (ex_cfg\<lparr>RetentionDays := 0\<rparr>) \<le> 0
   \<and> cleanupOldCompressedLogs (ex_cfg\<lparr>RetentionDays := 0\<rparr>) (ex_day 19800) ex_retention_world
        = (ex_retention_world, None)"
proof -
  let ?cn = "ex_cfg\<lparr>KeepLastNArchives := 1\<rparr>"
  let ?cz = "ex_cfg\<lparr>RetentionDays := 0\<rparr>"
  let ?now = "ex_day 19800"
  let ?run1 = "cleanupOldCompressedLogs ?cn ?now ex_keep_world"
  let ?run2 = "cleanupOldCompressedLogs ex_cfg ?now ex_retention_world"
  let ?run3 = "cleanupOldCompressedLogs ?cz ?now ex_retention_world"
  let ?pa = "[''arch'', ''a.zip'']" and ?pc = "[''arch'', ''c.gz'']"
  let ?notes = "[''arch'', ''notes.txt'']"
  have h1: "KeepLastNArchives ?cn > 0" by simp
  have d: "DestFolder ?cn = [''arch'']" by (simp add: ex_cfg_def)
  have rd: "os_ReadDir ex_keep_world (DestFolder ?cn)
        = Inr [(''a.zip'', False), (''b.ZIP'', False), (''c.gz'', False),
               (''notes.txt'', False), (''sub.zip'', True)]"
    by code_simp
  note T1 = retention_policy_selection[where cfg = ?cn and now = ?now and w = ex_keep_world,
      OF surjective_pairing]
  note K1 = T1[THEN conjunct1, THEN mp, OF h1]
  note R1 = K1[THEN conjunct2, THEN conjunct1, THEN spec, THEN mp, OF rd]
  from R1 have r1: "snd ?run1 = None" by (rule conjunct1)
  from R1[THEN conjunct2] obtain ranked where
    dd: "distinct (map fst ranked)"
    and s: "\<forall>q t. (q, t) \<in> set ranked \<longleftrightarrow>
              (\<exists>name info. q = Join (DestFolder ?cn) name
                 \<and> map_of (fs ex_keep_world) q = Some info \<and> \<not> IsDir info
                 \<and> (HasSuffix (ToLower name) ''.zip'' \<or> HasSuffix (ToLower name) ''.gz'')
                 \<and> t = MTime info)"
    and o: "\<forall>i j. i \<le> j \<and> j < length ranked \<longrightarrow> snd (ranked ! j) \<le> snd (ranked ! i)"
    and e: "\<forall>i info. i < length ranked \<and> map_of (fs ex_keep_world) (fst (ranked ! i)) = Some info
              \<longrightarrow> map_of (fs (fst ?run1)) (fst (ranked ! i))
                    = (if int i < KeepLastNArchives ?cn then Some info
                       else if locks info > 0 then Some (info\<lparr>locks := locks info - 1\<rparr>)
                       else None)"
    and f: "\<forall>q. q \<notin> fst ` set ranked \<longrightarrow>
              map_of (fs (fst ?run1)) q = map_of (fs ex_keep_world) q"
    by (elim exE conjE) (rule that)
  have "?pa = Join (DestFolder ?cn) ''a.zip''
          \<and> map_of (fs ex_keep_world) ?pa = Some (ex_file 50 (ex_day 19700))
          \<and> \<not> IsDir (ex_file 50 (ex_day 19700))
          \<and> (HasSuffix (ToLower ''a.zip'') ''.zip'' \<or> HasSuffix (ToLower ''a.zip'') ''.gz'')
          \<and> ex_day 19700 = MTime (ex_file 50 (ex_day 19700))"
    by code_simp
  with s have ma: "(?pa, ex_day 19700) \<in> set ranked" by blast
  have "?pc = Join (DestFolder ?cn) ''c.gz''
          \<and> map_of (fs ex_keep_world) ?pc = Some (ex_file 70 (ex_day 19720))
          \<and> \<not> IsDir (ex_file 70 (ex_day 19720))
          \<and> (HasSuffix (ToLower ''c.gz'') ''.zip'' \<or> HasSuffix (ToLower ''c.gz'') ''.gz'')
          \<and> ex_day 19720 = MTime (ex_file 70 (ex_day 19720))"
    by code_simp
  with s have mc: "(?pc, ex_day 19720) \<in> set ranked" by blast
  have lt: "ex_day 19700 < ex_day 19720" by (simp add: ex_day_def nsPerDay_def)
  from not_first_if_newer[OF o ma mc lt]
  obtain i where i: "i < length ranked" "ranked ! i = (?pa, ex_day 19700)" "1 \<le> i" by blast
  have ia: "map_of (fs ex_keep_world) ?pa = Some (ex_file 50 (ex_day 19700))"
    by (simp add: ex_keep_world_def)
  from e i(1,2) ia
  have "map_of (fs (fst ?run1)) ?pa
          = (if int i < KeepLastNArchives ?cn then Some (ex_file 50 (ex_day 19700))
             else if locks (ex_file 50 (ex_day 19700)) > 0
             then Some ((ex_file 50 (ex_day 19700))\<lparr>locks := locks (ex_file 50 (ex_day 19700)) - 1\<rparr>)
             else None)"
    by (metis fst_conv)
  with i(3) have ga: "map_of (fs (fst ?run1)) ?pa = None" by (simp add: ex_file_def)
  have "?notes \<notin> fst ` set ranked"
  proof
    assume "?notes \<in> fst ` set ranked"
    then obtain t where "(?notes, t) \<in> set ranked" by force
    with s obtain name where "?notes = Join (DestFolder ?cn) name"
      "HasSuffix (ToLower name) ''.zip'' \<or> HasSuffix (ToLower name) ''.gz''" by blast
    then show False
      by (auto simp: d Join_def HasSuffix_def ToLower_def lower_char_def suffix_def)
  qed
  with f have "map_of (fs (fst ?run1)) ?notes = map_of (fs ex_keep_world) ?notes" by blast
  then have kn: "map_of (fs (fst ?run1)) ?notes = Some (ex_file 5 (ex_day 19000))"
    by (simp add: ex_keep_world_def)
  have on: "MTime (ex_file 5 (ex_day 19000)) < AddDate_days ?now (- RetentionDays ?cn)"
    by (simp add: ex_file_def ex_day_def AddDate_days_def ex_cfg_def nsPerDay_def)
  have h2: "KeepLastNArchives ex_cfg \<le> 0 \<and> RetentionDays ex_cfg > 0"
    by (simp add: ex_cfg_def)
  have r2: "snd ?run2 = None" by code_simp
  have o0: "map_of (fs ex_retention_world) [''arch'', ''old.zip'']
              = Some (ex_file 70 (ex_day 19770 - 1000))"
    by (simp add: ex_retention_world_def)
  have o1: "MTime (ex_file 70 (ex_day 19770 - 1000))
              < AddDate_days ?now (- RetentionDays ex_cfg)"
    by (simp add: ex_file_def ex_day_def AddDate_days_def ex_cfg_def nsPerDay_def)
  have o2: "\<not> IsDir (ex_file 70 (ex_day 19770 - 1000))" by (simp add: ex_file_def)
  have o3: "[''arch'', ''old.zip''] \<in> set (walk_paths ex_retention_world (DestFolder ex_cfg))"
    by code_simp
  have n0: "map_of (fs ex_retention_world) [''arch'', ''new.zip''] = Some (ex_file 60 (ex_day 19790))"
    by (simp add: ex_retention_world_def)
  have n1: "\<not> MTime (ex_file 60 (ex_day 19790)) < AddDate_days ?now (- RetentionDays ex_cfg)"
    by (simp add: ex_file_def ex_day_def AddDate_days_def ex_cfg_def nsPerDay_def)
  note T2 = retention_policy_selection[where cfg = ex_cfg and now = ?now
      and w = ex_retention_world, OF surjective_pairing]
  note A2 = T2[THEN conjunct2, THEN conjunct1, THEN mp, OF h2]
  note G2 = A2[THEN conjunct2, THEN mp, OF r2, THEN bspec, OF o3]
  from G2 o0 o2 o1
  have go: "map_of (fs (fst ?run2)) [''arch'', ''old.zip''] = None" by blast
  have kn2: "map_of (fs (fst ?run2)) [''arch'', ''new.zip''] = Some (ex_file 60 (ex_day 19790))"
  proof (rule ccontr)
    assume "map_of (fs (fst ?run2)) [''arch'', ''new.zip''] \<noteq> Some (ex_file 60 (ex_day 19790))"
    with n0 have "map_of (fs (fst ?run2)) [''arch'', ''new.zip'']
                    \<noteq> map_of (fs ex_retention_world) [''arch'', ''new.zip'']" by simp
    with A2[THEN conjunct1] obtain info where
      "map_of (fs ex_retention_world) [''arch'', ''new.zip''] = Some info"
      "MTime info < AddDate_days ?now (- RetentionDays ex_cfg)" by blast
    with n0 n1 show False by simp
  qed
  have h3: "KeepLastNArchives ?cz \<le> 0 \<and> RetentionDays ?cz \<le> 0" by (simp add: ex_cfg_def)
  note T3 = retention_policy_selection[where cfg = ?cz and now = ?now
      and w = ex_retention_world, OF surjective_pairing]
  from T3[THEN conjunct2, THEN conjunct2, THEN mp, OF h3]
  have "fst ?run3 = ex_retention_world \<and> snd ?run3 = None" .
  then have c3: "?run3 = (ex_retention_world, None)" by (simp add: prod_eq_iff)
  from h1 rd r1 ga on kn h2 r2 go kn2 h3 c3 show ?thesis by (intro conjI) simp_all
qed

subsection \<open>The candidates of the keep-last-N policy\<close>




subsection \<open>Runs in which a step fails\<close>

text \<open>
  Claim C4 says that a failure to close the just-written container fails the whole group:
  the container is removed, the group is reported as failed, and nothing is verified or
  deleted. The run below has \<^verbatim>\<open>destFile.Close()\<close> fail (line 302): the group task returns
  the error and no source is deleted, but the container stays in the destination folder.
  When instead \<^verbatim>\<open>zipWriter.Close()\<close> fails (line 418), the container is removed.
\<close>

theorem file_close_failure_keeps_container:
  "snd (compressMonthGroup ex_cfg (ex_faults\<lparr>fileCloseFails := (\<lambda>p. True)\<rparr>) (ex_day 19800)
          ''2024-01'' ex_january ex_world)
     = Some (Errorf ''closing destination file: write error'')
   \<and> map_of (fs (fst (compressMonthGroup ex_cfg (ex_faults\<lparr>fileCloseFails := (\<lambda>p. True)\<rparr>)
                        (ex_day 19800) ''2024-01'' ex_january ex_world)))
        (destPathOf ex_cfg ex_january) \<noteq> None
   \<and> map_of (fs (fst (compressMonthGroup ex_cfg (ex_faults\<lparr>fileCloseFails := (\<lambda>p. True)\<rparr>)
                        (ex_day 19800) ''2024-01'' ex_january ex_world)))
        [''logs'', ''W3SVC1'', ''u_ex240101.log''] \<noteq> None
   \<and> snd (compressMonthGroup ex_cfg (ex_faults\<lparr>zipCloseFails := (\<lambda>p. True)\<rparr>) (ex_day 19800)
          ''2024-01'' ex_january ex_world)
     = Some (Errorf ''closing zip writer: write error'')
   \<and> map_of (fs (fst (compressMonthGroup ex_cfg (ex_faults\<lparr>zipCloseFails := (\<lambda>p. True)\<rparr>)
                        (ex_day 19800) ''2024-01'' ex_january ex_world)))
        (destPathOf ex_cfg ex_january) = None"
  by code_simp

text \<open>
  Claim C5 says that under either retention policy a failed deletion does not abort the
  sweep. In the run below all three archives are older than the cutoff and \<^verbatim>\<open>b.zip\<close>
  cannot be removed. Under the age cutoff the callback returns the error of
  \<^verbatim>\<open>os.Remove\<close>, the walk stops, and \<^verbatim>\<open>c.zip\<close>, which the walk would reach next, is left
  untouched. Under keep-last-N with N = 1 the same failure is ignored and the sweep goes
  on to remove \<^verbatim>\<open>a.zip\<close>.
\<close>

theorem age_cutoff_stops_at_failed_removal:
  "snd (cleanupOldCompressedLogs ex_cfg (ex_day 19800) ex_locked_world)
     = Some (PathError ''remove'' [''arch'', ''b.zip''] ''file is being used by another process'')
   \<and> walk_paths ex_locked_world (DestFolder ex_cfg)
       = [[''arch''], [''arch'', ''a.zip''], [''arch'', ''b.zip''], [''arch'', ''c.zip'']]
   \<and> map_of (fs ex_locked_world) [''arch'', ''c.zip''] = Some (ex_file 70 (ex_day 19002))
   \<and> Before (MTime (ex_file 70 (ex_day 19002)))
        (AddDate_days (ex_day 19800) (- RetentionDays ex_cfg))
   \<and> map_of (fs (fst (cleanupOldCompressedLogs ex_cfg (ex_day 19800) ex_locked_world)))
        [''arch'', ''c.zip''] = Some (ex_file 70 (ex_day 19002))
   \<and> snd (cleanupOldCompressedLogs (ex_cfg\<lparr>KeepLastNArchives := 1\<rparr>) (ex_day 19800)
            ex_locked_world) = None
   \<and> map_of (fs (fst (cleanupOldCompressedLogs (ex_cfg\<lparr>KeepLastNArchives := 1\<rparr>)
                        (ex_day 19800) ex_locked_world)))
        [''arch'', ''b.zip''] \<noteq> None
   \<and> map_of (fs (fst (cleanupOldCompressedLogs (ex_cfg\<lparr>KeepLastNArchives := 1\<rparr>)
                        (ex_day 19800) ex_locked_world)))
        [''arch'', ''a.zip''] = None"
  by code_simp

text \<open>
  Claim C8 says that every write of a group task to the shared statistics is made while
  the mutex is held. In the run below the container cannot be reopened for verification:
  \<^verbatim>\<open>verifyZipContainsAll\<close> appends its error to \<^verbatim>\<open>stats.Errors\<close> (line 432) without taking
  \<^verbatim>\<open>mu\<close>, so the group task makes one write with the mutex not held. The same group task
  without the fault makes none.
\<close>

theorem verifier_writes_stats_without_lock:
  "mu ex_world = False \<and> unguarded ex_world = 0
   \<and> unguarded (fst (compressMonthGroup ex_cfg (ex_faults\<lparr>reopenFails := (\<lambda>p. True)\<rparr>)
                        (ex_day 19800) ''2024-01'' ex_january ex_world)) = 1
   \<and> Errors (stats (fst (compressMonthGroup ex_cfg (ex_faults\<lparr>reopenFails := (\<lambda>p. True)\<rparr>)
                        (ex_day 19800) ''2024-01'' ex_january ex_world)))
       = [''verify open zip /arch/iis_202401.zip: open /arch/iis_202401.zip: access is denied'']
   \<and> unguarded (fst (compressMonthGroup ex_cfg ex_faults (ex_day 19800) ''2024-01''
                        ex_january ex_world)) = 0"
  by code_simp

end
